theory Spec2Isabelle
  imports Main
begin

section \<open>The AI-response resilience layer of LectureRoom\<close>

text \<open>
  The repository holds two copies of the Gemini service module. The first one
  (source file \<^verbatim>\<open>src/unnamed/part_003\<close>) always talks to the network; its
  functions keep their names here. The second one (the module that follows
  the Login component in \<^verbatim>\<open>src/components/Login.tsx\<close>) adds a demo mode; its
  functions carry the suffix \<open>_demo\<close>.

  A JavaScript string is a sequence of UTF-16 code units. It is modelled as
  the list of their values, natural numbers below 65536; \<open>js\<close> turns a
  literal of this theory into such a list. The statements below hold for
  every list of natural numbers, hence for every string. JavaScript numbers that the code
  only compares, decrements and doubles (\<open>retries\<close>, \<open>delay\<close>, status codes)
  are modelled as \<^typ>\<open>int\<close>: decrementing and doubling an integer are exact
  in the host arithmetic as long as the values stay within its range.
\<close>

subsection \<open>Strings of the host language\<close>

type_synonym js_string = "nat list"

definition js :: "string \<Rightarrow> js_string" where
  "js s = map of_char s"

text \<open>Whether \<open>s\<close> begins with \<open>p\<close>: the match test of \<open>includes\<close> and \<open>split\<close>.\<close>

fun starts_with :: "js_string \<Rightarrow> js_string \<Rightarrow> bool" where
  "starts_with s [] = True"
| "starts_with [] (p # ps) = False"
| "starts_with (c # cs) (p # ps) = (c = p \<and> starts_with cs ps)"

text \<open>\<^verbatim>\<open>s.includes(sub)\<close>: some position of \<open>s\<close> starts with \<open>sub\<close>.\<close>

fun includes_str :: "js_string \<Rightarrow> js_string \<Rightarrow> bool" where
  "includes_str [] sub = starts_with [] sub"
| "includes_str (c # cs) sub = (starts_with (c # cs) sub \<or> includes_str cs sub)"

text \<open>
  \<^verbatim>\<open>s.split(sep)\<close> for a non-empty separator (every call site passes a
  literal one): scan from the left, cut at each occurrence, continue after
  it. \<open>cur\<close> holds the code units of the current piece, last one first.
\<close>

fun split_scan :: "js_string \<Rightarrow> js_string \<Rightarrow> js_string \<Rightarrow> js_string list" where
  "split_scan sep cur [] = [rev cur]"
| "split_scan sep cur (c # cs) =
     (if starts_with (c # cs) sep
      then rev cur # split_scan sep [] (drop (length sep - 1) cs)
      else split_scan sep (c # cur) cs)"

definition split_str :: "js_string \<Rightarrow> js_string \<Rightarrow> js_string list" where
  "split_str s sep = split_scan sep [] s"

text \<open>
  The white space and line terminators that \<^verbatim>\<open>trim()\<close> removes: U+0009 to
  U+000D, U+0020, U+00A0, U+1680, U+2000 to U+200A, U+2028, U+2029, U+202F,
  U+205F, U+3000 and U+FEFF.
\<close>

definition is_whitespace :: "nat \<Rightarrow> bool" where
  "is_whitespace c =
     ((9 \<le> c \<and> c \<le> 13) \<or> c = 32 \<or> c = 160 \<or> c = 5760 \<or>
      (8192 \<le> c \<and> c \<le> 8202) \<or> c = 8232 \<or> c = 8233 \<or> c = 8239 \<or>
      c = 8287 \<or> c = 12288 \<or> c = 65279)"

definition trim :: "js_string \<Rightarrow> js_string" where
  "trim s = rev (dropWhile is_whitespace (rev (dropWhile is_whitespace s)))"

text \<open>The class \<^verbatim>\<open>\w\<close>: ASCII letters, digits and the underscore.\<close>

definition is_alnum :: "nat \<Rightarrow> bool" where
  "is_alnum c = ((48 \<le> c \<and> c \<le> 57) \<or> (65 \<le> c \<and> c \<le> 90) \<or> (97 \<le> c \<and> c \<le> 122))"

definition is_word_char :: "nat \<Rightarrow> bool" where
  "is_word_char c = (is_alnum c \<or> c = 95)"

text \<open>\<^verbatim>\<open>s.replace(/^\W+/, '')\<close>: drop the leading run of non-word characters.\<close>

definition strip_leading_nonword :: "js_string \<Rightarrow> js_string" where
  "strip_leading_nonword s = dropWhile (\<lambda>c. \<not> is_word_char c) s"

text \<open>\<^verbatim>\<open>x || dflt\<close> on a string that may be absent: absent and empty are falsy.\<close>

definition or_else :: "js_string option \<Rightarrow> js_string \<Rightarrow> js_string" where
  "or_else x dflt = (case x of None \<Rightarrow> dflt | Some v \<Rightarrow> if v = [] then dflt else v)"

subsection \<open>Thrown values and their classification\<close>

text \<open>
  A field of a thrown object that the classifier compares with \<open>===\<close>:
  absent, a number, or a string.
\<close>

datatype js_value = JUndefined | JNum int | JStr js_string

text \<open>
  What a \<^verbatim>\<open>catch (error: any)\<close> receives: \<open>null\<close>/\<open>undefined\<close>, or an object
  with the three fields the classifier reads. The message, when present, is a
  string, as it is for every \<open>Error\<close> and for the client library's errors.
\<close>

record error_obj =
  status :: js_value
  code :: js_value
  message :: "js_string option"

datatype thrown = Nullish | Obj error_obj

text \<open>\<^verbatim>\<open>error?.status\<close>, \<^verbatim>\<open>error?.code\<close>, \<^verbatim>\<open>error?.message\<close>.\<close>

fun status_of :: "thrown \<Rightarrow> js_value" where
  "status_of Nullish = JUndefined"
| "status_of (Obj e) = status e"

fun code_of :: "thrown \<Rightarrow> js_value" where
  "code_of Nullish = JUndefined"
| "code_of (Obj e) = code e"

fun message_of :: "thrown \<Rightarrow> js_string option" where
  "message_of Nullish = None"
| "message_of (Obj e) = message e"

text \<open>
  \<^verbatim>\<open>error?.message && error.message.includes(sub)\<close>, read as a condition: an
  absent or empty message is falsy, so \<open>includes\<close> is only asked of a non-empty
  string.
\<close>

definition message_includes :: "thrown \<Rightarrow> js_string \<Rightarrow> bool" where
  "message_includes error sub =
     (case message_of error of
        None \<Rightarrow> False
      | Some m \<Rightarrow> m \<noteq> [] \<and> includes_str m sub)"

text \<open>The \<open>isRateLimit\<close> condition of \<open>retryWithBackoff\<close> of \<^verbatim>\<open>part_003\<close>.\<close>

definition isRateLimit :: "thrown \<Rightarrow> bool" where
  "isRateLimit error =
     (status_of error = JNum 429 \<or>
      code_of error = JNum 429 \<or>
      message_includes error (js ''429'') \<or>
      message_includes error (js ''RESOURCE_EXHAUSTED''))"

subsection \<open>Primitives that raise\<close>

text \<open>
  Reading a method of \<open>undefined\<close> raises a \<open>TypeError\<close>. \<^verbatim>\<open>parts[i].trim()\<close>
  does so when \<open>i\<close> is beyond the array; \<^verbatim>\<open>parts[i]?.trim()\<close> gives
  \<open>undefined\<close> instead.
\<close>

definition type_error :: thrown where
  "type_error =
     Obj \<lparr>status = JUndefined, code = JUndefined,
          message = Some (js ''Cannot read properties of undefined'')\<rparr>"

definition field_trim :: "js_string list \<Rightarrow> nat \<Rightarrow> thrown + js_string" where
  "field_trim parts i = (if i < length parts then Inr (trim (parts ! i)) else Inl type_error)"

definition field_trim_opt :: "js_string list \<Rightarrow> nat \<Rightarrow> js_string option" where
  "field_trim_opt parts i = (if i < length parts then Some (trim (parts ! i)) else None)"

text \<open>Sequencing of steps that may raise: the first exception ends the block.\<close>

definition and_then :: "(thrown + 'a) \<Rightarrow> ('a \<Rightarrow> thrown + 'b) \<Rightarrow> thrown + 'b" where
  "and_then r f = (case r of Inl e \<Rightarrow> Inl e | Inr v \<Rightarrow> f v)"

text \<open>
  \<^verbatim>\<open>encodeURIComponent\<close> reads the string code point by code point. Letters,
  digits and \<^verbatim>\<open>- _ . ! ~ * ' ( )\<close> stay; any other code point becomes the
  percent-escapes of its UTF-8 bytes. A surrogate pair (a code unit from
  U+D800 to U+DBFF followed by one from U+DC00 to U+DFFF) is one code point
  beyond U+FFFF; a surrogate outside such a pair raises a \<open>URIError\<close>.
\<close>

definition uri_error :: thrown where
  "uri_error =
     Obj \<lparr>status = JUndefined, code = JUndefined, message = Some (js ''URI malformed'')\<rparr>"

definition is_uri_unreserved :: "nat \<Rightarrow> bool" where
  "is_uri_unreserved c = (is_alnum c \<or> c \<in> set (js ''-_.!~*()'') \<or> c = 39)"

definition is_high_surrogate :: "nat \<Rightarrow> bool" where
  "is_high_surrogate c = (55296 \<le> c \<and> c \<le> 56319)"

definition is_low_surrogate :: "nat \<Rightarrow> bool" where
  "is_low_surrogate c = (56320 \<le> c \<and> c \<le> 57343)"

text \<open>The UTF-8 bytes of a code point.\<close>

definition utf8_bytes :: "nat \<Rightarrow> nat list" where
  "utf8_bytes cp =
     (if cp < 128 then [cp]
      else if cp < 2048 then [192 + cp div 64, 128 + cp mod 64]
      else if cp < 65536 then
        [224 + cp div 4096, 128 + (cp div 64) mod 64, 128 + cp mod 64]
      else
        [240 + cp div 262144, 128 + (cp div 4096) mod 64, 128 + (cp div 64) mod 64,
         128 + cp mod 64])"

definition hex_digit :: "nat \<Rightarrow> nat" where
  "hex_digit n = js ''0123456789ABCDEF'' ! (n mod 16)"

definition percent_byte :: "nat \<Rightarrow> js_string" where
  "percent_byte b = [37, hex_digit (b div 16), hex_digit (b mod 16)]"

definition escape :: "nat \<Rightarrow> js_string" where
  "escape cp = concat (map percent_byte (utf8_bytes cp))"

fun encodeURIComponent :: "js_string \<Rightarrow> thrown + js_string" where
  "encodeURIComponent [] = Inr []"
| "encodeURIComponent (c # cs) =
     (if is_uri_unreserved c
      then and_then (encodeURIComponent cs) (\<lambda>rest. Inr (c # rest))
      else if is_high_surrogate c
      then (case cs of
              [] \<Rightarrow> Inl uri_error
            | d # ds \<Rightarrow>
                if is_low_surrogate d
                then and_then (encodeURIComponent ds) (\<lambda>rest.
                       Inr (escape (65536 + (c - 55296) * 1024 + (d - 56320)) @ rest))
                else Inl uri_error)
      else if is_low_surrogate c then Inl uri_error
      else and_then (encodeURIComponent cs) (\<lambda>rest. Inr (escape c @ rest)))"

subsection \<open>The retry wrapper\<close>

text \<open>
  What a run does besides returning: each call of the wrapped operation, each
  warning line (with the delay and the retries left that it prints) and each
  timer the code awaits.
\<close>

datatype event = Invoke | Warn int int | Sleep int

text \<open>
  The wrapped operation \<open>fn\<close> is a zero-argument asynchronous function. It may
  behave differently at each call, so it is a function of the state of the
  world: it returns what its promise settles to (\<open>Inl\<close> a rejection,
  \<open>Inr\<close> a value) and the next state.
\<close>

type_synonym ('a, 's) operation = "'s \<Rightarrow> (thrown + 'a) \<times> 's"

text \<open>
  A settled call: the outcome, the events in order, and the final state.
\<close>

type_synonym ('a, 's) settled = "(thrown + 'a) \<times> event list \<times> 's"

text \<open>
  The factor of the backoff. The code has no parameter for it: it is the
  literal of \<^verbatim>\<open>delay * 2\<close>, named here for the statements about delays.
\<close>

definition multiplier :: int where
  "multiplier = 2"

function retryWithBackoff ::
  "('a, 's) operation \<Rightarrow> int \<Rightarrow> int \<Rightarrow> 's \<Rightarrow> ('a, 's) settled" where
  "retryWithBackoff fn retries delay s =
     (case fn s of
        (Inr v, s') \<Rightarrow> (Inr v, [Invoke], s')
      | (Inl error, s') \<Rightarrow>
          if retries > 0 \<and> isRateLimit error then
            (case retryWithBackoff fn (retries - 1) (delay * 2) s' of
               (r, evs, s'') \<Rightarrow> (r, Invoke # Warn delay retries # Sleep delay # evs, s''))
          else (Inl error, [Invoke], s'))"
  by pat_completeness auto
termination
  by (relation "measure (\<lambda>(fn, retries, delay, s). nat retries)") auto

declare retryWithBackoff.simps [simp del]

text \<open>
  Every call site passes only the operation, so the defaults
  \<^verbatim>\<open>retries = 3\<close> and \<^verbatim>\<open>delay = 2000\<close> apply.
\<close>

definition retryWithBackoff_default :: "('a, 's) operation \<Rightarrow> 's \<Rightarrow> ('a, 's) settled" where
  "retryWithBackoff_default fn s = retryWithBackoff fn 3 2000 s"

subsection \<open>Responses of the generative client\<close>

text \<open>
  Of a response the accessors read \<^verbatim>\<open>response.text\<close>, which may be absent, and
  \<^verbatim>\<open>response.candidates?.[0]?.groundingMetadata?.groundingChunks || []\<close>; of
  each chunk they read \<^verbatim>\<open>web?.uri\<close>, which may be absent too.
\<close>

record response =
  response_text :: "js_string option"
  groundingChunks :: "js_string option list"

text \<open>
  The call \<^verbatim>\<open>ai.models.generateContent(request)\<close> of an accessor, with the
  request fixed: an operation that settles to a response or rejects.
\<close>

type_synonym 's generateContent = "(response, 's) operation"

text \<open>
  The template \<^verbatim>\<open>https://www.google.com/search?q=${encodeURIComponent(q)}\<close>;
  it raises when the encoding does.
\<close>

definition search_url :: "js_string \<Rightarrow> thrown + js_string" where
  "search_url q =
     and_then (encodeURIComponent q) (\<lambda>e. Inr (js ''https://www.google.com/search?q='' @ e))"

text \<open>
  \<^verbatim>\<open>groundingChunks[index]?.web?.uri || `https://www.google.com/search?q=...`\<close>:
  the search link is only built when there is no citation at the index.
\<close>

definition citation_or_search :: "js_string option list \<Rightarrow> nat \<Rightarrow> js_string \<Rightarrow> thrown + js_string" where
  "citation_or_search chunks index q =
     (if index < length chunks
      then (case chunks ! index of
              None \<Rightarrow> search_url q
            | Some uri \<Rightarrow> if uri = [] then search_url q else Inr uri)
      else search_url q)"

text \<open>\<^verbatim>\<open>groundingChunks[index]?.web?.uri || dflt\<close> with a literal default.\<close>

definition citation_or :: "js_string option list \<Rightarrow> nat \<Rightarrow> js_string \<Rightarrow> js_string" where
  "citation_or chunks index dflt =
     (if index < length chunks then or_else (chunks ! index) dflt else dflt)"

subsection \<open>Degree programs (first copy)\<close>

definition fallbackPrograms :: "js_string list" where
  "fallbackPrograms =
     map js
       [''Computer Science'', ''Economics'', ''Law'', ''Accounting'', ''Medicine'',
        ''Mass Communication'', ''Political Science'', ''Mechanical Engineering'']"

text \<open>The first extraction: pieces between \<^verbatim>\<open>|||\<close>, trimmed and filtered.\<close>

definition programs_of_text :: "js_string \<Rightarrow> js_string list" where
  "programs_of_text text0 =
     filter (\<lambda>p. length p > 3 \<and> \<not> includes_str p (js ''List of''))
       (map trim (split_str text0 (js ''|||'')))"

text \<open>The second extraction: the lines of the text.\<close>

definition program_lines_of_text :: "js_string \<Rightarrow> js_string list" where
  "program_lines_of_text text0 =
     filter (\<lambda>p. length p > 5)
       (map (\<lambda>p. trim (strip_leading_nonword p)) (split_str text0 [10]))"

text \<open>The \<open>try\<close> block of the accessor's operation, after the response arrived.\<close>

definition generateDegreePrograms_parse :: "response \<Rightarrow> js_string list" where
  "generateDegreePrograms_parse response =
     (let text0 = or_else (response_text response) []
      in if text0 = [] then []
         else (let programs = programs_of_text text0
               in if length programs < 5 then program_lines_of_text text0
                  else programs))"

text \<open>
  The operation handed to \<open>retryWithBackoff\<close>: the \<open>catch\<close> turns a rejected
  call into the fallback list, so the operation itself never rejects.
\<close>

definition generateDegreePrograms_fn :: "'s generateContent \<Rightarrow> (js_string list, 's) operation" where
  "generateDegreePrograms_fn gen s =
     (case gen s of
        (Inr response, s') \<Rightarrow> (Inr (generateDegreePrograms_parse response), s')
      | (Inl error, s') \<Rightarrow> (Inr fallbackPrograms, s'))"

definition generateDegreePrograms :: "'s generateContent \<Rightarrow> 's \<Rightarrow> (js_string list, 's) settled" where
  "generateDegreePrograms gen s = retryWithBackoff_default (generateDegreePrograms_fn gen) s"

subsection \<open>University news (first copy)\<close>

record news_item =
  headline :: js_string
  date :: js_string
  snippet :: js_string
  link :: js_string

text \<open>
  The link of a news item: the fourth field, trimmed, when it has at least 5
  characters; otherwise the citation at the index of the piece, and without
  one a search for the university's name followed by \<open>news\<close>.
\<close>

definition news_link ::
  "js_string \<Rightarrow> js_string option list \<Rightarrow> nat \<Rightarrow> js_string list \<Rightarrow> thrown + js_string" where
  "news_link universityName chunks index parts =
     (case field_trim_opt parts 3 of
        None \<Rightarrow> citation_or_search chunks index (universityName @ js '' news'')
      | Some l \<Rightarrow>
          if l = [] \<or> length l < 5
          then citation_or_search chunks index (universityName @ js '' news'')
          else Inr l)"

text \<open>The body of the loop: the link first, then the object with its fields.\<close>

definition news_record ::
  "js_string \<Rightarrow> js_string option list \<Rightarrow> nat \<Rightarrow> js_string list \<Rightarrow> thrown + news_item" where
  "news_record universityName chunks index parts =
     and_then (news_link universityName chunks index parts) (\<lambda>link0.
     and_then (field_trim parts 0) (\<lambda>h.
     and_then (field_trim parts 1) (\<lambda>d.
     and_then (field_trim parts 2) (\<lambda>sn.
       Inr \<lparr>headline = strip_leading_nonword h, date = d, snippet = sn, link = link0\<rparr>))))"

text \<open>
  \<^verbatim>\<open>rawNews.forEach((item, index) => ...)\<close>: the pieces left to visit, the index
  of the next one, and the array \<open>newsItems\<close> built so far.
\<close>

fun news_forEach ::
  "js_string \<Rightarrow> js_string option list \<Rightarrow> js_string list \<Rightarrow> nat \<Rightarrow> news_item list \<Rightarrow>
   thrown + news_item list" where
  "news_forEach universityName chunks [] index newsItems = Inr newsItems"
| "news_forEach universityName chunks (item # rest) index newsItems =
     (let parts = split_str item (js ''$$'')
      in if length parts \<ge> 3
         then and_then (news_record universityName chunks index parts) (\<lambda>n.
                news_forEach universityName chunks rest (index + 1) (newsItems @ [n]))
         else news_forEach universityName chunks rest (index + 1) newsItems)"

definition newsItems_of :: "js_string \<Rightarrow> response \<Rightarrow> thrown + news_item list" where
  "newsItems_of universityName response =
     news_forEach universityName (groundingChunks response)
       (split_str (or_else (response_text response) []) (js ''|||'')) 0 []"




subsection \<open>Semester subjects (first copy)\<close>

record subject =
  subject_code :: js_string
  subject_title :: js_string
  subject_description :: "js_string option"

definition subject_record :: "js_string list \<Rightarrow> thrown + subject" where
  "subject_record parts =
     and_then (field_trim parts 0) (\<lambda>c.
     and_then (field_trim parts 1) (\<lambda>t.
       Inr \<lparr>subject_code = c, subject_title = t,
            subject_description =
              Some (or_else (field_trim_opt parts 2) (js ''Core course module.''))\<rparr>))"

text \<open>
  \<^verbatim>\<open>lines.forEach(line => ...)\<close>: the lines left to visit and the array
  \<open>subjects\<close> built so far. Both copies of the module run this same loop.
\<close>

fun subjects_forEach :: "js_string list \<Rightarrow> subject list \<Rightarrow> thrown + subject list" where
  "subjects_forEach [] subjects = Inr subjects"
| "subjects_forEach (line # rest) subjects =
     (if includes_str line (js ''|'')
      then (let parts = split_str line (js ''|'')
            in if length parts \<ge> 2
               then and_then (subject_record parts) (\<lambda>sub.
                      subjects_forEach rest (subjects @ [sub]))
               else subjects_forEach rest subjects)
      else subjects_forEach rest subjects)"

definition subjects_of :: "response \<Rightarrow> thrown + subject list" where
  "subjects_of response =
     subjects_forEach (split_str (or_else (response_text response) []) [10]) []"

definition plain_subject :: "string \<Rightarrow> string \<Rightarrow> string \<Rightarrow> subject" where
  "plain_subject c t d =
     \<lparr>subject_code = js c, subject_title = js t, subject_description = Some (js d)\<rparr>"





subsection \<open>Book search (first copy)\<close>

record book =
  book_title :: js_string
  author :: js_string
  book_description :: js_string
  book_link :: "js_string option"

text \<open>
  A book is built from the first three fields of its piece. No further field
  is read: the link is the citation at the index of the piece, and without
  one a search for the trimmed first field followed by \<open>book\<close>.
\<close>

definition book_record :: "js_string option list \<Rightarrow> nat \<Rightarrow> js_string list \<Rightarrow> thrown + book" where
  "book_record chunks index parts =
     and_then (field_trim parts 0) (\<lambda>t.
     and_then (field_trim parts 1) (\<lambda>a.
     and_then (field_trim parts 2) (\<lambda>d.
     and_then (citation_or_search chunks index (t @ js '' book'')) (\<lambda>l.
       Inr \<lparr>book_title = strip_leading_nonword t, author = a, book_description = d,
            book_link = Some l\<rparr>))))"

fun books_forEach ::
  "js_string option list \<Rightarrow> js_string list \<Rightarrow> nat \<Rightarrow> book list \<Rightarrow> thrown + book list" where
  "books_forEach chunks [] index books = Inr books"
| "books_forEach chunks (rb # rest) index books =
     (let parts = split_str rb (js ''$$'')
      in if length parts \<ge> 3
         then and_then (book_record chunks index parts) (\<lambda>b.
                books_forEach chunks rest (index + 1) (books @ [b]))
         else books_forEach chunks rest (index + 1) books)"

definition findBooks_parse :: "response \<Rightarrow> thrown + book list" where
  "findBooks_parse response =
     books_forEach (groundingChunks response)
       (split_str (or_else (response_text response) []) (js ''|||'')) 0 []"



section \<open>The second copy: the service with a demo mode\<close>

subsection \<open>Configuration and initialization\<close>

text \<open>
  The module reads \<^verbatim>\<open>process.env.API_KEY\<close> (absent or a string) once, when it
  is loaded, into two constants: the flag \<open>isMockMode\<close> and the client \<open>ai\<close>,
  which is \<open>null\<close> in demo mode. \<open>new_client\<close> stands for
  \<^verbatim>\<open>new GoogleGenAI({ apiKey })\<close>.
\<close>

record 's service =
  isMockMode :: bool
  ai :: "'s generateContent option"

definition load_service :: "js_string option \<Rightarrow> (js_string \<Rightarrow> 's generateContent) \<Rightarrow> 's service" where
  "load_service apiKey new_client =
     (case apiKey of
        None \<Rightarrow> \<lparr>isMockMode = True, ai = None\<rparr>
      | Some k \<Rightarrow>
          (let mock = (k = [] \<or> k = js ''undefined'' \<or> length k < 5)
           in \<lparr>isMockMode = mock, ai = (if \<not> mock then Some (new_client k) else None)\<rparr>))"

subsection \<open>Helpers\<close>

text \<open>The \<open>isRateLimit\<close> condition of this copy's \<open>retryWithBackoff\<close>.\<close>

definition isRateLimit_demo :: "thrown \<Rightarrow> bool" where
  "isRateLimit_demo error =
     (status_of error = JNum 429 \<or>
      code_of error = JNum 429 \<or>
      message_includes error (js ''429'') \<or>
      message_includes error (js ''RESOURCE_EXHAUSTED''))"

function retryWithBackoff_demo ::
  "('a, 's) operation \<Rightarrow> int \<Rightarrow> int \<Rightarrow> 's \<Rightarrow> ('a, 's) settled" where
  "retryWithBackoff_demo fn retries delay s =
     (case fn s of
        (Inr v, s') \<Rightarrow> (Inr v, [Invoke], s')
      | (Inl error, s') \<Rightarrow>
          if retries > 0 \<and> isRateLimit_demo error then
            (case retryWithBackoff_demo fn (retries - 1) (delay * 2) s' of
               (r, evs, s'') \<Rightarrow> (r, Invoke # Warn delay retries # Sleep delay # evs, s''))
          else (Inl error, [Invoke], s'))"
  by pat_completeness auto
termination
  by (relation "measure (\<lambda>(fn, retries, delay, s). nat retries)") auto

declare retryWithBackoff_demo.simps [simp del]

text \<open>
  \<^verbatim>\<open>mockDelay(data, ms = 1500)\<close>: a timer, then the data. No call site passes
  \<open>ms\<close> for the accessors modelled here.
\<close>

definition mockDelay :: "'a \<Rightarrow> 's \<Rightarrow> ('a, 's) settled" where
  "mockDelay data s = (Inr data, [Sleep 1500], s)"

subsection \<open>Mock data\<close>

definition mockPrograms :: "js_string list" where
  "mockPrograms =
     map js
       [''Computer Science'', ''Software Engineering'', ''Business Administration'',
        ''Economics'', ''Accounting'', ''Mass Communication'', ''Law'',
        ''Medicine and Surgery'', ''International Relations'', ''Microbiology'']"

definition getMockSubjects :: "subject list" where
  "getMockSubjects =
     [plain_subject ''GST 101'' ''Use of English''
        ''Communication skills, essay writing, and comprehension.'',
      plain_subject ''MTH 101'' ''General Mathematics I''
        ''Algebra, Trigonometry, and Coordinate Geometry.'',
      plain_subject ''CSC 101'' ''Intro to Computer Science''
        ''History of computing, binary systems, and algorithms.'',
      plain_subject ''PHY 101'' ''General Physics I''
        ''Mechanics, properties of matter, and thermal physics.'',
      plain_subject ''CHM 101'' ''General Chemistry I''
        ''Atomic structure, chemical bonding, and stoichiometry.'',
      plain_subject ''GST 103'' ''Nigerian Peoples & Culture''
        ''Study of Nigerian history, ethnic groups, and cultures.'']"

definition mockNews :: "js_string \<Rightarrow> news_item list" where
  "mockNews universityName =
     [\<lparr>headline = universityName @ js '' Announces Resumption'',
       date = js ''2 days ago'',
       snippet = js ''The university senate has approved the resumption date for the new academic session.'',
       link = js ''#''\<rparr>,
      \<lparr>headline = js ''Admission List Released'',
       date = js ''1 week ago'',
       snippet = js ''The merit admission list for the 2024/2025 academic session is now available on the portal.'',
       link = js ''#''\<rparr>,
      \<lparr>headline = js ''Convocation Ceremony'',
       date = js ''3 days ago'',
       snippet = js ''Upcoming convocation ceremony scheduled for next month at the main auditorium.'',
       link = js ''#''\<rparr>,
      \<lparr>headline = js ''Research Grant Won'',
       date = js ''Yesterday'',
       snippet = js ''The Faculty of Science has secured a major international research grant.'',
       link = js ''#''\<rparr>]"

definition mockBooks :: "book list" where
  "mockBooks =
     [\<lparr>book_title = js ''Fundamentals of Modern Study'', author = js ''Dr. A. B. Johnson'',
       book_description = js ''A comprehensive guide to academic excellence.'',
       book_link = Some (js ''#'')\<rparr>,
      \<lparr>book_title = js ''Principles of Economics'', author = js ''N. Gregory Mankiw'',
       book_description = js ''Standard text on micro and macroeconomics.'',
       book_link = Some (js ''#'')\<rparr>,
      \<lparr>book_title = js ''Introduction to Algorithms'', author = js ''T. Cormen'',
       book_description = js ''Algorithms and data structures.'',
       book_link = Some (js ''#'')\<rparr>,
      \<lparr>book_title = js ''Nigerian Legal System'', author = js ''Ese Malemi'',
       book_description = js ''Foundational text for law students.'',
       book_link = Some (js ''#'')\<rparr>]"

subsection \<open>Exported services\<close>

text \<open>The extraction of this copy: pieces between \<^verbatim>\<open>|||\<close>, trimmed, longer than 3.\<close>

definition programs_of_text_demo :: "js_string \<Rightarrow> js_string list" where
  "programs_of_text_demo text0 =
     filter (\<lambda>p. length p > 3) (map trim (split_str text0 (js ''|||'')))"

definition generateDegreePrograms_demo_parse :: "response \<Rightarrow> js_string list" where
  "generateDegreePrograms_demo_parse response =
     (let text0 = or_else (response_text response) []
      in if text0 = [] then []
         else (let programs = programs_of_text_demo text0
               in if length programs > 0 then programs else mockPrograms))"

definition generateDegreePrograms_demo_fn :: "'s generateContent \<Rightarrow> (js_string list, 's) operation" where
  "generateDegreePrograms_demo_fn gen s =
     (case gen s of
        (Inr response, s') \<Rightarrow> (Inr (generateDegreePrograms_demo_parse response), s')
      | (Inl error, s') \<Rightarrow> (Inr mockPrograms, s'))"

definition generateDegreePrograms_demo :: "'s service \<Rightarrow> 's \<Rightarrow> (js_string list, 's) settled" where
  "generateDegreePrograms_demo m s =
     (case ai m of
        None \<Rightarrow> mockDelay mockPrograms s
      | Some gen \<Rightarrow>
          if isMockMode m then mockDelay mockPrograms s
          else retryWithBackoff_demo (generateDegreePrograms_demo_fn gen) 3 2000 s)"

text \<open>
  News in this copy: the headline is only trimmed, and a missing or short link
  falls back on the citation and then on the placeholder \<open>#\<close>. Nothing is
  encoded here.
\<close>

definition news_link_demo :: "js_string option list \<Rightarrow> nat \<Rightarrow> js_string list \<Rightarrow> js_string" where
  "news_link_demo chunks index parts =
     (let dflt = citation_or chunks index (js ''#'')
      in case field_trim_opt parts 3 of
           None \<Rightarrow> dflt
         | Some l \<Rightarrow> if l = [] \<or> length l < 5 then dflt else l)"

definition news_record_demo ::
  "js_string option list \<Rightarrow> nat \<Rightarrow> js_string list \<Rightarrow> thrown + news_item" where
  "news_record_demo chunks index parts =
     (let link0 = news_link_demo chunks index parts
      in and_then (field_trim parts 0) (\<lambda>h.
         and_then (field_trim parts 1) (\<lambda>d.
         and_then (field_trim parts 2) (\<lambda>sn.
           Inr \<lparr>headline = h, date = d, snippet = sn, link = link0\<rparr>))))"

fun news_forEach_demo ::
  "js_string option list \<Rightarrow> js_string list \<Rightarrow> nat \<Rightarrow> news_item list \<Rightarrow>
   thrown + news_item list" where
  "news_forEach_demo chunks [] index newsItems = Inr newsItems"
| "news_forEach_demo chunks (item # rest) index newsItems =
     (let parts = split_str item (js ''$$'')
      in if length parts \<ge> 3
         then and_then (news_record_demo chunks index parts) (\<lambda>n.
                news_forEach_demo chunks rest (index + 1) (newsItems @ [n]))
         else news_forEach_demo chunks rest (index + 1) newsItems)"

definition generateUniversityNews_demo_parse :: "response \<Rightarrow> thrown + news_item list" where
  "generateUniversityNews_demo_parse response =
     and_then
       (news_forEach_demo (groundingChunks response)
          (split_str (or_else (response_text response) []) (js ''|||'')) 0 [])
       (\<lambda>newsItems. Inr (take 4 newsItems))"

definition generateUniversityNews_demo_fn :: "'s generateContent \<Rightarrow> (news_item list, 's) operation" where
  "generateUniversityNews_demo_fn gen s =
     (case gen s of
        (Inr response, s') \<Rightarrow>
          (case generateUniversityNews_demo_parse response of
             Inr newsItems \<Rightarrow> (Inr newsItems, s')
           | Inl error \<Rightarrow> (Inr [], s'))
      | (Inl error, s') \<Rightarrow> (Inr [], s'))"

definition generateUniversityNews_demo ::
  "'s service \<Rightarrow> js_string \<Rightarrow> 's \<Rightarrow> (news_item list, 's) settled" where
  "generateUniversityNews_demo m universityName s =
     (case ai m of
        None \<Rightarrow> mockDelay (mockNews universityName) s
      | Some gen \<Rightarrow>
          if isMockMode m then mockDelay (mockNews universityName) s
          else retryWithBackoff_demo (generateUniversityNews_demo_fn gen) 3 2000 s)"

definition generateSemesterSubjects_demo_parse :: "response \<Rightarrow> thrown + subject list" where
  "generateSemesterSubjects_demo_parse response =
     and_then (subjects_of response) (\<lambda>subjects.
       Inr (if length subjects > 0 then take 8 subjects else getMockSubjects))"

definition generateSemesterSubjects_demo_fn :: "'s generateContent \<Rightarrow> (subject list, 's) operation" where
  "generateSemesterSubjects_demo_fn gen s =
     (case gen s of
        (Inr response, s') \<Rightarrow>
          (case generateSemesterSubjects_demo_parse response of
             Inr subjects \<Rightarrow> (Inr subjects, s')
           | Inl error \<Rightarrow> (Inr getMockSubjects, s'))
      | (Inl error, s') \<Rightarrow> (Inr getMockSubjects, s'))"

definition generateSemesterSubjects_demo :: "'s service \<Rightarrow> 's \<Rightarrow> (subject list, 's) settled" where
  "generateSemesterSubjects_demo m s =
     (case ai m of
        None \<Rightarrow> mockDelay getMockSubjects s
      | Some gen \<Rightarrow>
          if isMockMode m then mockDelay getMockSubjects s
          else retryWithBackoff_demo (generateSemesterSubjects_demo_fn gen) 3 2000 s)"

text \<open>
  Book recommendations come as JSON. \<open>books_of_json\<close> stands for
  \<^verbatim>\<open>JSON.parse(response.text).books\<close>: \<open>Inl\<close> when that raises, \<open>Inr None\<close>
  when the parsed value has no (truthy) \<open>books\<close>.
\<close>

definition recommendBooks_demo_fn ::
  "(js_string \<Rightarrow> thrown + book list option) \<Rightarrow> 's generateContent \<Rightarrow> (book list, 's) operation" where
  "recommendBooks_demo_fn books_of_json gen s =
     (case gen s of
        (Inr response, s') \<Rightarrow>
          (case response_text response of
             None \<Rightarrow> (Inr [], s')
           | Some t \<Rightarrow>
               if t = [] then (Inr [], s')
               else (case books_of_json t of
                       Inl error \<Rightarrow> (Inr [], s')
                     | Inr None \<Rightarrow> (Inr [], s')
                     | Inr (Some books) \<Rightarrow> (Inr books, s')))
      | (Inl error, s') \<Rightarrow> (Inr [], s'))"

definition recommendBooks_demo ::
  "'s service \<Rightarrow> (js_string \<Rightarrow> thrown + book list option) \<Rightarrow> 's \<Rightarrow> (book list, 's) settled" where
  "recommendBooks_demo m books_of_json s =
     (case ai m of
        None \<Rightarrow> mockDelay mockBooks s
      | Some gen \<Rightarrow>
          if isMockMode m then mockDelay mockBooks s
          else retryWithBackoff_demo (recommendBooks_demo_fn books_of_json gen) 3 2000 s)"

text \<open>
  Book search in this copy: the loop has no index, and every book gets the
  placeholder link \<open>#\<close>.
\<close>

definition book_record_demo :: "js_string list \<Rightarrow> thrown + book" where
  "book_record_demo parts =
     and_then (field_trim parts 0) (\<lambda>t.
     and_then (field_trim parts 1) (\<lambda>a.
     and_then (field_trim parts 2) (\<lambda>d.
       Inr \<lparr>book_title = t, author = a, book_description = d, book_link = Some (js ''#'')\<rparr>)))"

fun books_forEach_demo :: "js_string list \<Rightarrow> book list \<Rightarrow> thrown + book list" where
  "books_forEach_demo [] books = Inr books"
| "books_forEach_demo (rb # rest) books =
     (let parts = split_str rb (js ''$$'')
      in if length parts \<ge> 3
         then and_then (book_record_demo parts) (\<lambda>b.
                books_forEach_demo rest (books @ [b]))
         else books_forEach_demo rest books)"

definition findBooks_demo_parse :: "response \<Rightarrow> thrown + book list" where
  "findBooks_demo_parse response =
     books_forEach_demo (split_str (or_else (response_text response) []) (js ''|||'')) []"

definition findBooks_demo_fn :: "'s generateContent \<Rightarrow> (book list, 's) operation" where
  "findBooks_demo_fn gen s =
     (case gen s of
        (Inr response, s') \<Rightarrow>
          (case findBooks_demo_parse response of
             Inr books \<Rightarrow> (Inr books, s')
           | Inl error \<Rightarrow> (Inr [], s'))
      | (Inl error, s') \<Rightarrow> (Inr [], s'))"

definition findBooks_demo ::
  "'s service \<Rightarrow> (js_string \<Rightarrow> thrown + book list option) \<Rightarrow> 's \<Rightarrow> (book list, 's) settled" where
  "findBooks_demo m books_of_json s =
     (case ai m of
        None \<Rightarrow> recommendBooks_demo m books_of_json s
      | Some gen \<Rightarrow>
          if isMockMode m then recommendBooks_demo m books_of_json s
          else retryWithBackoff_demo (findBooks_demo_fn gen) 3 2000 s)"

section \<open>Observations on runs\<close>

text \<open>The state of the world after \<open>k\<close> calls of the operation.\<close>

fun state_after :: "('a, 's) operation \<Rightarrow> 's \<Rightarrow> nat \<Rightarrow> 's" where
  "state_after fn s 0 = s"
| "state_after fn s (Suc k) = state_after fn (snd (fn s)) k"

text \<open>How often a run called the operation, and the delays it waited, in order.\<close>

definition invocations :: "event list \<Rightarrow> nat" where
  "invocations evs = length (filter (\<lambda>e. e = Invoke) evs)"

fun sleeps :: "event list \<Rightarrow> int list" where
  "sleeps [] = []"
| "sleeps (Sleep d # evs) = d # sleeps evs"
| "sleeps (e # evs) = sleeps evs"

text \<open>An attempt that ended in a failure classified as rate-limited.\<close>

definition rate_limited_failure :: "thrown + 'a \<Rightarrow> bool" where
  "rate_limited_failure out = (case out of Inl e \<Rightarrow> isRateLimit e | Inr v \<Rightarrow> False)"

text \<open>
  The events of \<open>n\<close> failed attempts that were retried: a call, the warning and
  the timer, with the delay doubled and the retries left decremented each time.
\<close>

definition schedule :: "int \<Rightarrow> int \<Rightarrow> nat \<Rightarrow> event list" where
  "schedule d r n =
     concat (map (\<lambda>k. [Invoke, Warn (d * 2 ^ k) (r - int k), Sleep (d * 2 ^ k)]) [0..<n])"

text \<open>
  The classification in the words of the specification: the status is 429, or
  the code is 429, or the message contains \<open>429\<close> or \<open>RESOURCE_EXHAUSTED\<close>.
\<close>

definition contains :: "js_string \<Rightarrow> js_string \<Rightarrow> bool" where
  "contains m sub = (\<exists>pre suf. m = pre @ sub @ suf)"

definition spec_rate_limited :: "thrown \<Rightarrow> bool" where
  "spec_rate_limited e =
     (status_of e = JNum 429 \<or> code_of e = JNum 429 \<or>
      (\<exists>m. message_of e = Some m \<and>
           (contains m (js ''429'') \<or> contains m (js ''RESOURCE_EXHAUSTED''))))"

subsection \<open>Example operations\<close>

text \<open>
  An operation that is refused for quota at every call; the state counts the
  calls, and the error of call \<open>n\<close> carries \<open>n\<close> as its code.
\<close>

definition quota_error :: "nat \<Rightarrow> thrown" where
  "quota_error n =
     Obj \<lparr>status = JNum 429, code = JNum (int n), message = Some (js ''Too Many Requests'')\<rparr>"

definition always_rate_limited :: "(unit, nat) operation" where
  "always_rate_limited n = (Inl (quota_error n), Suc n)"

text \<open>An operation that fails with HTTP 500 at every call.\<close>

definition server_error :: thrown where
  "server_error =
     Obj \<lparr>status = JNum 500, code = JUndefined, message = Some (js ''Internal Server Error'')\<rparr>"

definition always_server_error :: "(unit, nat) operation" where
  "always_server_error n = (Inl server_error, Suc n)"

section \<open>Observations on extraction\<close>

text \<open>
  A string without an unpaired surrogate: every code unit from U+D800 to
  U+DBFF is followed by one from U+DC00 to U+DFFF, and the latter occur
  nowhere else.
\<close>

fun well_paired :: "js_string \<Rightarrow> bool" where
  "well_paired [] = True"
| "well_paired (c # cs) =
     (if is_high_surrogate c
      then (case cs of [] \<Rightarrow> False | d # ds \<Rightarrow> is_low_surrogate d \<and> well_paired ds)
      else if is_low_surrogate c then False
      else well_paired cs)"

text \<open>
  The results of a list of steps, in order, unless one of them raises: then
  the first exception.
\<close>

fun collect :: "(thrown + 'a) list \<Rightarrow> thrown + 'a list" where
  "collect [] = Inr []"
| "collect (r # rs) = and_then r (\<lambda>x. and_then (collect rs) (\<lambda>xs. Inr (x # xs)))"

text \<open>
  The record that each loop builds from a piece whose fields are all there.
  In the first copy building the link of a news item or of a book may raise.
\<close>

definition news_item_of ::
  "js_string \<Rightarrow> js_string option list \<Rightarrow> nat \<Rightarrow> js_string list \<Rightarrow> thrown + news_item" where
  "news_item_of universityName chunks index parts =
     and_then (news_link universityName chunks index parts) (\<lambda>l.
       Inr \<lparr>headline = strip_leading_nonword (trim (parts ! 0)),
            date = trim (parts ! 1),
            snippet = trim (parts ! 2),
            link = l\<rparr>)"

definition news_item_of_demo :: "js_string option list \<Rightarrow> nat \<Rightarrow> js_string list \<Rightarrow> news_item" where
  "news_item_of_demo chunks index parts =
     \<lparr>headline = trim (parts ! 0),
      date = trim (parts ! 1),
      snippet = trim (parts ! 2),
      link = news_link_demo chunks index parts\<rparr>"

definition subject_of :: "js_string list \<Rightarrow> subject" where
  "subject_of parts =
     \<lparr>subject_code = trim (parts ! 0),
      subject_title = trim (parts ! 1),
      subject_description =
        Some (or_else (field_trim_opt parts 2) (js ''Core course module.''))\<rparr>"

definition book_of :: "js_string option list \<Rightarrow> nat \<Rightarrow> js_string list \<Rightarrow> thrown + book" where
  "book_of chunks index parts =
     and_then (citation_or_search chunks index (trim (parts ! 0) @ js '' book'')) (\<lambda>l.
       Inr \<lparr>book_title = strip_leading_nonword (trim (parts ! 0)),
            author = trim (parts ! 1),
            book_description = trim (parts ! 2),
            book_link = Some l\<rparr>)"

definition book_of_demo :: "js_string list \<Rightarrow> book" where
  "book_of_demo parts =
     \<lparr>book_title = trim (parts ! 0),
      author = trim (parts ! 1),
      book_description = trim (parts ! 2),
      book_link = Some (js ''#'')\<rparr>"

text \<open>
  The pieces of a text that the loops accept, each with its index among all
  pieces (before any is dropped), in the order of the text.
\<close>

definition accepted_pieces :: "nat \<Rightarrow> js_string list \<Rightarrow> (nat \<times> js_string list) list" where
  "accepted_pieces i items =
     filter (\<lambda>(i, parts). 3 \<le> length parts)
       (map (\<lambda>(i, item). (i, split_str item (js ''$$''))) (enumerate i items))"

definition dollar_pieces :: "js_string \<Rightarrow> (nat \<times> js_string list) list" where
  "dollar_pieces text0 = accepted_pieces 0 (split_str text0 (js ''|||''))"

definition pipe_lines :: "js_string \<Rightarrow> js_string list list" where
  "pipe_lines text0 =
     filter (\<lambda>parts. 2 \<le> length parts)
       (map (\<lambda>line. split_str line (js ''|''))
          (filter (\<lambda>line. includes_str line (js ''|'')) (split_str text0 [10])))"

text \<open>The text of a response as the accessors read it: \<^verbatim>\<open>response.text || ""\<close>.\<close>

definition text_of :: "response \<Rightarrow> js_string" where
  "text_of response = or_else (response_text response) []"

text \<open>
  A citation exists at an index when the chunk is there and its \<open>web.uri\<close> is
  a non-empty string.
\<close>

definition has_citation :: "js_string option list \<Rightarrow> nat \<Rightarrow> bool" where
  "has_citation chunks index =
     (index < length chunks \<and>
      (case chunks ! index of None \<Rightarrow> False | Some uri \<Rightarrow> uri \<noteq> []))"

text \<open>The embedded link (the fourth field) is missing or has fewer than 5 characters once trimmed.\<close>

definition short_link :: "js_string list \<Rightarrow> bool" where
  "short_link parts =
     (case field_trim_opt parts 3 of None \<Rightarrow> True | Some l \<Rightarrow> length l < 5)"



subsection \<open>Example responses\<close>

text \<open>A response with a text and no citations, and a client that answers with it.\<close>

definition plain_response :: "js_string \<Rightarrow> response" where
  "plain_response t = \<lparr>response_text = Some t, groundingChunks = []\<rparr>"

definition answering :: "response \<Rightarrow> nat generateContent" where
  "answering response n = (Inr response, Suc n)"

definition failing :: "thrown \<Rightarrow> nat generateContent" where
  "failing error n = (Inl error, Suc n)"

text \<open>Citations for the pieces 0 and 1 of a text, and none beyond.\<close>

definition cited_chunks :: "js_string option list" where
  "cited_chunks = [Some (js ''https://a.example/1''), Some (js ''https://b.example/2'')]"






text \<open>A book as the first copy emits it without a citation.\<close>

definition achebe :: book where
  "achebe =
     \<lparr>book_title = js ''Things Fall Apart'', author = js ''Chinua Achebe'',
      book_description = js ''A novel.'',
      book_link = Some (js ''https://www.google.com/search?q=Things%20Fall%20Apart%20book'')\<rparr>"


text \<open>The fields of a news piece with a short embedded link, and with a long one.\<close>

definition short_news :: "js_string list" where
  "short_news = map js [''Exams begin'', ''Today'', ''All levels'', ''#'']"

definition long_news :: "js_string list" where
  "long_news = map js [''Exams begin'', ''Today'', ''All levels'', '' https://unilag.edu.ng/news '']"

section \<open>Properties of the retry wrapper\<close>

lemma starts_with_iff: "starts_with s p \<longleftrightarrow> (\<exists>suf. s = p @ suf)"
  by (induction s p rule: starts_with.induct) auto

lemma includes_str_iff: "includes_str s sub \<longleftrightarrow> (\<exists>pre suf. s = pre @ sub @ suf)"
proof (induction s)
  case Nil
  then show ?case by (cases sub) auto
next
  case (Cons c cs)
  show ?case
  proof
    assume "includes_str (c # cs) sub"
    then consider "starts_with (c # cs) sub" | "includes_str cs sub" by auto
    then show "\<exists>pre suf. c # cs = pre @ sub @ suf"
    proof cases
      case 1
      then obtain suf where "c # cs = sub @ suf" by (auto simp: starts_with_iff)
      then have "c # cs = [] @ sub @ suf" by simp
      then show ?thesis by blast
    next
      case 2
      then obtain pre suf where "cs = pre @ sub @ suf" using Cons.IH by auto
      then have "c # cs = (c # pre) @ sub @ suf" by simp
      then show ?thesis by blast
    qed
  next
    assume "\<exists>pre suf. c # cs = pre @ sub @ suf"
    then obtain pre suf where eq: "c # cs = pre @ sub @ suf" by blast
    show "includes_str (c # cs) sub"
    proof (cases pre)
      case Nil
      then have "starts_with (c # cs) sub" using eq by (auto simp: starts_with_iff)
      then show ?thesis by simp
    next
      case (Cons p ps)
      then have "cs = ps @ sub @ suf" using eq by simp
      then have "includes_str cs sub" using Cons.IH by blast
      then show ?thesis by simp
    qed
  qed
qed

lemma schedule_Suc: "schedule d r (Suc n) = Invoke # Warn d r # Sleep d # schedule (d * 2) (r - 1) n"
proof -
  have "map (\<lambda>k. [Invoke, Warn (d * 2 ^ k) (r - int k), Sleep (d * 2 ^ k)]) [0..<Suc n]
     = [Invoke, Warn d r, Sleep d] # map (\<lambda>k. [Invoke, Warn (d * 2 * 2 ^ k) (r - 1 - int k), Sleep (d * 2 * 2 ^ k)]) [0..<n]"
    by (simp add: upt_conv_Cons map_Suc_upt [symmetric] mult.assoc algebra_simps del: upt_Suc)
  then show ?thesis by (simp add: schedule_def)
qed

lemma invocations_schedule: "invocations (schedule d r n @ evs) = n + invocations evs"
  by (induction n arbitrary: d r) (simp_all add: schedule_Suc, simp_all add: invocations_def schedule_def)

lemma sleeps_schedule: "sleeps (schedule d r n @ evs) = map (\<lambda>k. d * 2 ^ k) [0..<n] @ sleeps evs"
proof (induction n arbitrary: d r)
  case 0
  then show ?case by (simp add: schedule_def)
next
  case (Suc n)
  have "map (\<lambda>k. d * 2 ^ k) [0..<Suc n] = d # map (\<lambda>k. d * 2 * 2 ^ k) [0..<n]"
    by (simp add: upt_conv_Cons map_Suc_upt [symmetric] mult.assoc del: upt_Suc)
  then show ?case using Suc.IH [of "d * 2" "r - 1"] by (simp add: schedule_Suc del: upt_Suc)
qed

text \<open>
  Every run is a prefix of the schedule followed by one last call; the
  attempts before the last were rate-limited failures, and the run only stops
  short of its retries on an attempt that was not.
\<close>

lemma retry_shape:
  "\<exists>n. n \<le> nat retries \<and>
       retryWithBackoff fn retries delay s =
         (fst (fn (state_after fn s n)), schedule delay retries n @ [Invoke],
          snd (fn (state_after fn s n))) \<and>
       (\<forall>k < n. rate_limited_failure (fst (fn (state_after fn s k)))) \<and>
       (n < nat retries \<longrightarrow> \<not> rate_limited_failure (fst (fn (state_after fn s n))))"
proof (induction fn retries delay s rule: retryWithBackoff.induct)
  case (1 fn retries delay s)
  obtain out s' where fs: "fn s = (out, s')" by (cases "fn s")
  show ?case
  proof (cases out)
    case (Inr v)
    then have "retryWithBackoff fn retries delay s = (Inr v, [Invoke], s')"
      using fs by (subst retryWithBackoff.simps) simp
    then show ?thesis using fs Inr
      by (intro exI [of _ 0]) (simp add: schedule_def rate_limited_failure_def)
  next
    case (Inl e)
    show ?thesis
    proof (cases "retries > 0 \<and> isRateLimit e")
      case False
      then have "retryWithBackoff fn retries delay s = (Inl e, [Invoke], s')"
        using fs Inl by (subst retryWithBackoff.simps) auto
      then show ?thesis using fs Inl False
        by (intro exI [of _ 0]) (auto simp add: schedule_def rate_limited_failure_def)
    next
      case True
      obtain r evs s'' where rec: "retryWithBackoff fn (retries - 1) (delay * 2) s' = (r, evs, s'')"
        by (cases "retryWithBackoff fn (retries - 1) (delay * 2) s'")
      from "1.IH" [OF fs [symmetric] Inl True] rec
      obtain n where n: "n \<le> nat (retries - 1)"
        "evs = schedule (delay * 2) (retries - 1) n @ [Invoke]"
        "r = fst (fn (state_after fn s' n))"
        "s'' = snd (fn (state_after fn s' n))"
        "\<forall>k < n. rate_limited_failure (fst (fn (state_after fn s' k)))"
        "n < nat (retries - 1) \<longrightarrow> \<not> rate_limited_failure (fst (fn (state_after fn s' n)))"
        by auto
      have step: "retryWithBackoff fn retries delay s =
        (r, Invoke # Warn delay retries # Sleep delay # evs, s'')"
        using fs Inl True rec by (subst retryWithBackoff.simps) simp
      have "Suc n \<le> nat retries" using n(1) True by linarith
      moreover have "retryWithBackoff fn retries delay s =
         (fst (fn (state_after fn s (Suc n))), schedule delay retries (Suc n) @ [Invoke],
          snd (fn (state_after fn s (Suc n))))"
        unfolding step using n(2,3,4) fs by (simp add: schedule_Suc)
      moreover have "\<forall>k < Suc n. rate_limited_failure (fst (fn (state_after fn s k)))"
      proof (intro allI impI)
        fix k assume "k < Suc n"
        show "rate_limited_failure (fst (fn (state_after fn s k)))"
        proof (cases k)
          case 0
          then show ?thesis using fs Inl True by (simp add: rate_limited_failure_def)
        next
          case (Suc j)
          then have "j < n" using \<open>k < Suc n\<close> by simp
          then show ?thesis using n(5) fs Suc by simp
        qed
      qed
      moreover have "Suc n < nat retries \<longrightarrow> \<not> rate_limited_failure (fst (fn (state_after fn s (Suc n))))"
      proof
        assume "Suc n < nat retries"
        then have "n < nat (retries - 1)" by linarith
        then show "\<not> rate_limited_failure (fst (fn (state_after fn s (Suc n))))"
          using n(6) fs by simp
      qed
      ultimately show ?thesis by blast
    qed
  qed
qed

lemma retry_all_rate_limited:
  assumes "\<forall>k \<le> nat r. rate_limited_failure (fst (fn (state_after fn s k)))"
  shows "retryWithBackoff fn r d s =
           (fst (fn (state_after fn s (nat r))), schedule d r (nat r) @ [Invoke],
            snd (fn (state_after fn s (nat r))))"
proof -
  obtain n where n: "n \<le> nat r"
    "retryWithBackoff fn r d s =
       (fst (fn (state_after fn s n)), schedule d r n @ [Invoke], snd (fn (state_after fn s n)))"
    "n < nat r \<longrightarrow> \<not> rate_limited_failure (fst (fn (state_after fn s n)))"
    using retry_shape [of r fn d s] by blast
  have "n = nat r"
  proof (rule ccontr)
    assume "n \<noteq> nat r"
    then have "n < nat r" using n(1) by simp
    then show False using n(3) assms by auto
  qed
  then show ?thesis using n(2) by simp
qed

lemma retry_first_settles:
  assumes "fn s = (out, s')" and "\<not> rate_limited_failure out"
  shows "retryWithBackoff fn r d s = (out, [Invoke], s')"
  using assms
  by (subst retryWithBackoff.simps) (auto simp: rate_limited_failure_def split: sum.splits)

text \<open>
  Claim C1. For every operation and every retries value \<open>r \<ge> 0\<close>: if each of the
  first \<open>r + 1\<close> attempts fails with an error classified as rate-limited, then
  \<open>retryWithBackoff\<close> calls the operation exactly \<open>r + 1\<close> times and rejects with
  the failure of the last attempt.
\<close>

theorem retry_exhausted_rethrows_last:
  assumes "0 \<le> r"
    and "\<forall>k \<le> nat r. rate_limited_failure (fst (fn (state_after fn s k)))"
  shows "int (invocations (fst (snd (retryWithBackoff fn r d s)))) = r + 1 \<and>
         fst (retryWithBackoff fn r d s) = fst (fn (state_after fn s (nat r))) \<and>
         (\<exists>e. fst (retryWithBackoff fn r d s) = Inl e)"
proof -
  note run = retry_all_rate_limited [OF assms(2), of d]
  have "rate_limited_failure (fst (fn (state_after fn s (nat r))))"
    using assms(2) by simp
  then obtain e where "fst (fn (state_after fn s (nat r))) = Inl e"
    by (auto simp: rate_limited_failure_def split: sum.splits)
  moreover have "invocations (schedule d r (nat r) @ [Invoke]) = nat r + 1"
    by (simp add: invocations_schedule) (simp add: invocations_def)
  ultimately show ?thesis using run assms(1) by simp
qed

lemma always_rate_limited_state: "state_after always_rate_limited s k = s + k"
  by (induction k arbitrary: s) (simp_all add: always_rate_limited_def)

theorem retry_exhausted_rethrows_last_witness:
  "(0::int) \<le> 3 \<and>
   int (invocations (fst (snd (retryWithBackoff always_rate_limited 3 2000 0)))) = 4 \<and>
   fst (retryWithBackoff always_rate_limited 3 2000 0) = Inl (quota_error 3)"
proof -
  have "\<forall>k \<le> nat 3. rate_limited_failure (fst (always_rate_limited (state_after always_rate_limited 0 k)))"
    by (simp add: always_rate_limited_def rate_limited_failure_def isRateLimit_def quota_error_def)
  moreover have "fst (always_rate_limited n) = Inl (quota_error n)" for n
    by (simp add: always_rate_limited_def)
  ultimately show ?thesis
    using retry_exhausted_rethrows_last [of 3 always_rate_limited 0 2000] by (simp add: always_rate_limited_state)
qed

text \<open>
  Claim C2. The classifier of \<open>retryWithBackoff\<close> holds of a caught error exactly
  when its status is 429, or its code is 429, or its message contains \<open>429\<close> or
  \<open>RESOURCE_EXHAUSTED\<close>; and an operation whose failure is not so classified is
  called once and its failure is re-thrown at once, whatever the retries and
  the delay.
\<close>

theorem rate_limit_classification_and_no_retry:
  "(isRateLimit e \<longleftrightarrow> spec_rate_limited e) \<and>
   (fn s = (Inl e, s') \<longrightarrow> \<not> isRateLimit e \<longrightarrow>
      retryWithBackoff fn r d s = (Inl e, [Invoke], s'))"
proof
  have "message_includes e sub \<longleftrightarrow> (\<exists>m. message_of e = Some m \<and> contains m sub)" if "sub \<noteq> []" for sub
    using that by (auto simp: message_includes_def contains_def includes_str_iff split: option.splits)
  moreover have "js ''429'' \<noteq> []" "js ''RESOURCE_EXHAUSTED'' \<noteq> []"
    by (simp_all add: js_def)
  ultimately show "isRateLimit e \<longleftrightarrow> spec_rate_limited e"
    unfolding isRateLimit_def spec_rate_limited_def by auto
next
  show "fn s = (Inl e, s') \<longrightarrow> \<not> isRateLimit e \<longrightarrow> retryWithBackoff fn r d s = (Inl e, [Invoke], s')"
    by (auto intro!: retry_first_settles simp: rate_limited_failure_def)
qed

theorem rate_limit_classification_and_no_retry_witness:
  "\<not> isRateLimit server_error \<and> \<not> spec_rate_limited server_error \<and>
   retryWithBackoff always_server_error 3 2000 0 = (Inl server_error, [Invoke], 1)"
proof -
  have a: "always_server_error 0 = (Inl server_error, 1)"
    by (simp add: always_server_error_def)
  have b: "\<not> isRateLimit server_error"
    by code_simp
  from rate_limit_classification_and_no_retry [of server_error always_server_error 0 1 3 2000] a b show ?thesis by simp
qed

text \<open>
  Claim C3. In every run the delays waited, in order, are the initial delay
  times the multiplier (the literal 2 of the code) to the powers 0, 1, 2, ...:
  the delay before retry \<open>k\<close> is \<open>delay * multiplier ^ (k - 1)\<close>. With the
  defaults (3 retries, 2000 ms) and an operation that keeps being
  rate-limited, the delays before attempts 2, 3 and 4 are 2000, 4000 and
  8000 ms.
\<close>

theorem backoff_delays_double:
  "sleeps (fst (snd (retryWithBackoff fn r d s))) =
     map (\<lambda>k. d * multiplier ^ k) [0..<invocations (fst (snd (retryWithBackoff fn r d s))) - 1] \<and>
   ((\<forall>k \<le> 3. rate_limited_failure (fst (fn (state_after fn s k)))) \<longrightarrow>
      sleeps (fst (snd (retryWithBackoff_default fn s))) = [2000, 4000, 8000])"
proof
  obtain n where n: "retryWithBackoff fn r d s =
         (fst (fn (state_after fn s n)), schedule d r n @ [Invoke], snd (fn (state_after fn s n)))"
    using retry_shape [of r fn d s] by blast
  have "invocations (schedule d r n @ [Invoke]) = n + 1"
    by (simp add: invocations_schedule) (simp add: invocations_def)
  then show "sleeps (fst (snd (retryWithBackoff fn r d s))) =
     map (\<lambda>k. d * multiplier ^ k) [0..<invocations (fst (snd (retryWithBackoff fn r d s))) - 1]"
    unfolding n by (simp add: sleeps_schedule multiplier_def)
next
  show "(\<forall>k \<le> 3. rate_limited_failure (fst (fn (state_after fn s k)))) \<longrightarrow>
      sleeps (fst (snd (retryWithBackoff_default fn s))) = [2000, 4000, 8000]"
  proof
    assume "\<forall>k \<le> 3. rate_limited_failure (fst (fn (state_after fn s k)))"
    then have "\<forall>k \<le> nat 3. rate_limited_failure (fst (fn (state_after fn s k)))" by simp
    from retry_all_rate_limited [OF this, of 2000]
    show "sleeps (fst (snd (retryWithBackoff_default fn s))) = [2000, 4000, 8000]"
      by (simp add: retryWithBackoff_default_def sleeps_schedule eval_nat_numeral upt_conv_Cons)
  qed
qed

theorem backoff_delays_double_witness:
  "sleeps (fst (snd (retryWithBackoff_default always_rate_limited 0))) = [2000, 4000, 8000]"
proof -
  have h: "\<forall>k \<le> 3. rate_limited_failure (fst (always_rate_limited (state_after always_rate_limited 0 k)))"
    by (simp add: always_rate_limited_def rate_limited_failure_def isRateLimit_def quota_error_def)
  from backoff_delays_double [of always_rate_limited 3 2000 0] h show ?thesis
    by blast
qed

lemma isRateLimit_demo_eq: "isRateLimit_demo e = isRateLimit e"
  by (simp add: isRateLimit_demo_def isRateLimit_def)

lemma retryWithBackoff_demo_eq:
  "retryWithBackoff_demo fn retries delay s = retryWithBackoff fn retries delay s"
proof (induction fn retries delay s rule: retryWithBackoff.induct)
  case (1 fn retries delay s)
  show ?case
    by (subst retryWithBackoff_demo.simps, subst retryWithBackoff.simps)
       (auto simp: isRateLimit_demo_eq "1.IH" split: prod.splits sum.splits)
qed

text \<open>
  Claim C10. The two copies of \<open>retryWithBackoff\<close> agree: the same classifier,
  and for every operation, retries count, initial delay and starting state
  the same calls, warnings and delays, the same outcome and the same final
  state.
\<close>

theorem retryWithBackoff_copies_equal:
  "isRateLimit_demo e = isRateLimit e \<and>
   retryWithBackoff_demo fn retries delay s = retryWithBackoff fn retries delay s"
  by (simp add: isRateLimit_demo_eq retryWithBackoff_demo_eq)

section \<open>Properties of the extractors and accessors\<close>

lemma unreserved_not_surrogate:
  "is_uri_unreserved c \<Longrightarrow> \<not> is_high_surrogate c \<and> \<not> is_low_surrogate c"
  by (auto simp: is_uri_unreserved_def is_alnum_def is_high_surrogate_def is_low_surrogate_def js_def)

lemma encodeURIComponent_cases:
  "(well_paired s \<longrightarrow> (\<exists>e. encodeURIComponent s = Inr e)) \<and>
   (\<not> well_paired s \<longrightarrow> encodeURIComponent s = Inl uri_error)"
proof (induction s rule: well_paired.induct)
  case 1
  show ?case by simp
next
  case (2 c cs)
  show ?case
  proof (cases "is_uri_unreserved c")
    case True
    then have ns: "\<not> is_high_surrogate c" "\<not> is_low_surrogate c"
      using unreserved_not_surrogate by auto
    with True "2.IH"(2) show ?thesis
      by (auto simp: and_then_def split: sum.splits)
  next
    case False
    show ?thesis
    proof (cases "is_high_surrogate c")
      case True
      show ?thesis
      proof (cases cs)
        case Nil
        with True False show ?thesis by simp
      next
        case (Cons d ds)
        with True False "2.IH"(1) [OF True Cons] show ?thesis
          by (auto simp: and_then_def split: sum.splits)
      qed
    next
      case nh: False
      show ?thesis
      proof (cases "is_low_surrogate c")
        case True
        with nh False show ?thesis by simp
      next
        case nl: False
        with nh False "2.IH"(2) show ?thesis
          by (auto simp: and_then_def split: sum.splits)
      qed
    qed
  qed
qed

lemma search_url_well_paired: "well_paired q \<Longrightarrow> \<exists>l. search_url q = Inr l"
  using encodeURIComponent_cases [of q] by (auto simp: search_url_def and_then_def)

lemma search_url_unpaired: "\<not> well_paired q \<Longrightarrow> search_url q = Inl uri_error"
  using encodeURIComponent_cases [of q] by (auto simp: search_url_def and_then_def)

lemma search_url_Inl: "search_url q = Inl e \<Longrightarrow> e = uri_error \<and> \<not> well_paired q"
  using search_url_well_paired [of q] search_url_unpaired [of q] by (cases "well_paired q") auto

lemma search_url_not_placeholder: "search_url q \<noteq> Inr (js ''#'')"
  by (auto simp: search_url_def and_then_def js_def split: sum.splits)

lemma citation_or_search_present:
  "has_citation ch i \<Longrightarrow> \<exists>uri. ch ! i = Some uri \<and> citation_or_search ch i q = Inr uri"
  by (auto simp: has_citation_def citation_or_search_def split: option.splits)

lemma citation_or_search_absent:
  "\<not> has_citation ch i \<Longrightarrow> citation_or_search ch i q = search_url q"
  by (auto simp: has_citation_def citation_or_search_def split: option.splits)

lemma citation_or_present: "has_citation ch i \<Longrightarrow> ch ! i = Some (citation_or ch i d)"
  by (auto simp: has_citation_def citation_or_def or_else_def split: option.splits)

lemma citation_or_absent: "\<not> has_citation ch i \<Longrightarrow> citation_or ch i d = d"
  by (auto simp: has_citation_def citation_or_def or_else_def split: option.splits)

lemma news_link_short:
  "short_link parts \<Longrightarrow>
   news_link u ch i parts = citation_or_search ch i (u @ js '' news'')"
  by (auto simp: short_link_def news_link_def split: option.splits)

lemma news_link_long:
  "\<not> short_link parts \<Longrightarrow> news_link u ch i parts = Inr (trim (parts ! 3))"
  by (auto simp: short_link_def news_link_def field_trim_opt_def split: option.splits if_splits)

lemma news_link_demo_short:
  "short_link parts \<Longrightarrow> news_link_demo ch i parts = citation_or ch i (js ''#'')"
  by (auto simp: short_link_def news_link_demo_def Let_def split: option.splits)

lemma news_link_demo_long:
  "\<not> short_link parts \<Longrightarrow> news_link_demo ch i parts = trim (parts ! 3)"
  by (auto simp: short_link_def news_link_demo_def field_trim_opt_def Let_def split: option.splits if_splits)






text \<open>The loops build the records of the accepted pieces.\<close>

lemma news_record_ok:
  "3 \<le> length parts \<Longrightarrow> news_record u ch i parts = news_item_of u ch i parts"
  by (auto simp add: news_record_def news_item_of_def field_trim_def and_then_def split: sum.splits)

lemma news_record_demo_ok:
  "3 \<le> length parts \<Longrightarrow>
   news_record_demo ch i parts = Inr (news_item_of_demo ch i parts)"
  by (auto simp add: news_record_demo_def news_item_of_demo_def field_trim_def and_then_def Let_def)

lemma subject_record_ok:
  "2 \<le> length parts \<Longrightarrow> subject_record parts = Inr (subject_of parts)"
  by (auto simp add: subject_record_def subject_of_def field_trim_def and_then_def Let_def)

lemma book_record_ok:
  "3 \<le> length parts \<Longrightarrow> book_record ch i parts = book_of ch i parts"
  by (auto simp add: book_record_def book_of_def field_trim_def and_then_def split: sum.splits)

lemma book_record_demo_ok:
  "3 \<le> length parts \<Longrightarrow> book_record_demo parts = Inr (book_of_demo parts)"
  by (auto simp add: book_record_demo_def book_of_demo_def field_trim_def and_then_def Let_def)

lemma accepted_pieces_Nil: "accepted_pieces i [] = []"
  by (simp add: accepted_pieces_def)

lemma accepted_pieces_Cons:
  "accepted_pieces i (item # rest) =
     (if 3 \<le> length (split_str item (js ''$$'')) then [(i, split_str item (js ''$$''))] else [])
     @ accepted_pieces (Suc i) rest"
  by (simp add: accepted_pieces_def)

lemma collect_Inr_iff: "collect rs = Inr xs \<longleftrightarrow> rs = map Inr xs"
proof (induction rs arbitrary: xs)
  case Nil
  show ?case by auto
next
  case (Cons r rs)
  show ?case
  proof (cases r)
    case (Inl e)
    then show ?thesis by (auto simp: and_then_def)
  next
    case (Inr x)
    show ?thesis
    proof (cases "collect rs")
      case (Inl e)
      then have "\<And>ys. rs \<noteq> map Inr ys" using Cons.IH by auto
      with Inl Inr show ?thesis by (auto simp: and_then_def)
    next
      case r2: (Inr ys)
      then have "rs = map Inr ys" using Cons.IH by simp
      with r2 Inr show ?thesis by (auto simp: and_then_def)
    qed
  qed
qed


lemma collect_map_Inr: "collect (map (\<lambda>p. Inr (f p)) ps) = Inr (map f ps)"
  by (induction ps) (auto simp: and_then_def)

lemma news_forEach_eq:
  "news_forEach u ch items i acc =
     and_then (collect (map (\<lambda>(j, parts). news_item_of u ch j parts) (accepted_pieces i items)))
       (\<lambda>xs. Inr (acc @ xs))"
proof (induction items arbitrary: i acc)
  case Nil
  show ?case by (simp add: accepted_pieces_Nil and_then_def)
next
  case (Cons item rest)
  show ?case
  proof (cases "3 \<le> length (split_str item (js ''$$''))")
    case True
    then show ?thesis
      by (simp add: Cons.IH accepted_pieces_Cons news_record_ok and_then_def split: sum.splits)
  next
    case False
    then show ?thesis
      by (simp add: Cons.IH accepted_pieces_Cons)
  qed
qed

lemma books_forEach_eq:
  "books_forEach ch items i acc =
     and_then (collect (map (\<lambda>(j, parts). book_of ch j parts) (accepted_pieces i items)))
       (\<lambda>xs. Inr (acc @ xs))"
proof (induction items arbitrary: i acc)
  case Nil
  show ?case by (simp add: accepted_pieces_Nil and_then_def)
next
  case (Cons item rest)
  show ?case
  proof (cases "3 \<le> length (split_str item (js ''$$''))")
    case True
    then show ?thesis
      by (simp add: Cons.IH accepted_pieces_Cons book_record_ok and_then_def split: sum.splits)
  next
    case False
    then show ?thesis
      by (simp add: Cons.IH accepted_pieces_Cons)
  qed
qed

lemma news_forEach_demo_eq:
  "news_forEach_demo ch items i acc =
     Inr (acc @ map (\<lambda>(j, parts). news_item_of_demo ch j parts) (accepted_pieces i items))"
proof (induction items arbitrary: i acc)
  case Nil
  show ?case by (simp add: accepted_pieces_Nil)
next
  case (Cons item rest)
  show ?case
  proof (cases "3 \<le> length (split_str item (js ''$$''))")
    case True
    then show ?thesis
      by (simp add: Cons.IH accepted_pieces_Cons news_record_demo_ok and_then_def)
  next
    case False
    then show ?thesis
      by (simp add: Cons.IH accepted_pieces_Cons)
  qed
qed

lemma books_forEach_demo_eq:
  "books_forEach_demo items acc =
     Inr (acc @ map (\<lambda>(j, parts). book_of_demo parts) (accepted_pieces i items))"
proof (induction items arbitrary: i acc)
  case Nil
  show ?case by (simp add: accepted_pieces_Nil)
next
  case (Cons item rest)
  show ?case
  proof (cases "3 \<le> length (split_str item (js ''$$''))")
    case True
    then show ?thesis
      by (simp add: Cons.IH [of _ "Suc i"] accepted_pieces_Cons book_record_demo_ok and_then_def)
  next
    case False
    then show ?thesis
      by (simp add: Cons.IH [of _ "Suc i"] accepted_pieces_Cons)
  qed
qed

lemma subjects_forEach_eq:
  "subjects_forEach lines acc =
     Inr (acc @ map subject_of
            (filter (\<lambda>parts. 2 \<le> length parts)
               (map (\<lambda>line. split_str line (js ''|''))
                  (filter (\<lambda>line. includes_str line (js ''|'')) lines))))"
proof (induction lines arbitrary: acc)
  case Nil
  show ?case by simp
next
  case (Cons line rest)
  show ?case
    by (simp add: Cons.IH subject_record_ok and_then_def)
qed

lemma and_then_Inr: "and_then r Inr = r"
  by (simp add: and_then_def split: sum.splits)

lemma newsItems_of_eq:
  "newsItems_of u resp =
     collect (map (\<lambda>(i, parts). news_item_of u (groundingChunks resp) i parts)
                (dollar_pieces (text_of resp)))"
  by (simp add: newsItems_of_def news_forEach_eq dollar_pieces_def text_of_def and_then_Inr)

lemma subjects_of_eq: "subjects_of resp = Inr (map subject_of (pipe_lines (text_of resp)))"
  by (simp add: subjects_of_def subjects_forEach_eq pipe_lines_def text_of_def)

lemma findBooks_parse_eq:
  "findBooks_parse resp =
     collect (map (\<lambda>(i, parts). book_of (groundingChunks resp) i parts)
                (dollar_pieces (text_of resp)))"
  by (simp add: findBooks_parse_def books_forEach_eq dollar_pieces_def text_of_def and_then_Inr)

lemma findBooks_demo_parse_eq:
  "findBooks_demo_parse resp =
     Inr (map (\<lambda>(i, parts). book_of_demo parts) (dollar_pieces (text_of resp)))"
  by (simp add: findBooks_demo_parse_def books_forEach_demo_eq [of _ _ 0] dollar_pieces_def text_of_def)

lemma generateUniversityNews_demo_parse_eq:
  "generateUniversityNews_demo_parse resp =
     Inr (take 4 (map (\<lambda>(i, parts). news_item_of_demo (groundingChunks resp) i parts)
                    (dollar_pieces (text_of resp))))"
  by (simp add: generateUniversityNews_demo_parse_def news_forEach_demo_eq dollar_pieces_def
        text_of_def and_then_def)





text \<open>The definitions that evaluate the string functions on a given text.\<close>

lemmas evaluation =
  js_def split_str_def trim_def is_whitespace_def is_alnum_def is_word_char_def
  strip_leading_nonword_def or_else_def field_trim_def field_trim_opt_def and_then_def
  is_uri_unreserved_def is_high_surrogate_def is_low_surrogate_def utf8_bytes_def hex_digit_def
  percent_byte_def escape_def search_url_def citation_or_search_def citation_or_def
  accepted_pieces_def dollar_pieces_def pipe_lines_def text_of_def has_citation_def short_link_def
  plain_response_def news_link_def news_link_demo_def news_item_of_def news_item_of_demo_def
  book_of_def book_of_demo_def subject_of_def programs_of_text_def program_lines_of_text_def
  programs_of_text_demo_def uri_error_def

lemma retry_no_rejection:
  "fn s = (Inr v, s') \<Longrightarrow> retryWithBackoff fn r d s = (Inr v, [Invoke], s')"
  by (subst retryWithBackoff.simps) simp






lemma generateDegreePrograms_run:
  "generateDegreePrograms gen s =
     (case gen s of
        (Inr resp, s') \<Rightarrow> (Inr (generateDegreePrograms_parse resp), [Invoke], s')
      | (Inl e, s') \<Rightarrow> (Inr fallbackPrograms, [Invoke], s'))"
proof -
  obtain out s' where g: "gen s = (out, s')" by (cases "gen s")
  show ?thesis
  proof (cases out)
    case (Inl e)
    then have "generateDegreePrograms_fn gen s = (Inr fallbackPrograms, s')"
      using g by (simp add: generateDegreePrograms_fn_def)
    then show ?thesis using g Inl
      by (simp add: generateDegreePrograms_def retryWithBackoff_default_def retry_no_rejection)
  next
    case (Inr resp)
    then have "generateDegreePrograms_fn gen s = (Inr (generateDegreePrograms_parse resp), s')"
      using g by (simp add: generateDegreePrograms_fn_def)
    then show ?thesis using g Inr
      by (simp add: generateDegreePrograms_def retryWithBackoff_default_def retry_no_rejection)
  qed
qed

lemma split_str_empty: "split_str [] sep = [[]]"
  by (simp add: split_str_def)





text \<open>
  Claim C5, as amended. Every record that the news, subjects and books
  extractors emit comes from a piece with at least the required number of
  fields (three between \<^verbatim>\<open>$$\<close> for news and books; for subjects a line that
  contains \<^verbatim>\<open>|\<close>, hence at least two fields) and holds those fields trimmed
  (a headline and a book title also without their leading non-word
  characters); the fields themselves may be empty. Every other piece is
  dropped, and the pieces after it are still visited: the result lists the
  records of all accepted pieces in the order of the text (for news and
  books: unless building a link raises, which is the subject of claim C8).
\<close>

theorem records_from_pieces_with_enough_fields:
  "newsItems_of u resp =
     collect (map (\<lambda>(i, parts). news_item_of u (groundingChunks resp) i parts)
                (dollar_pieces (text_of resp))) \<and>
   subjects_of resp = Inr (map subject_of (pipe_lines (text_of resp))) \<and>
   findBooks_parse resp =
     collect (map (\<lambda>(i, parts). book_of (groundingChunks resp) i parts)
                (dollar_pieces (text_of resp))) \<and>
   (newsItems_of u resp = Inr ns \<longrightarrow>
      map Inr ns = map (\<lambda>(i, parts). news_item_of u (groundingChunks resp) i parts)
                     (dollar_pieces (text_of resp))) \<and>
   (findBooks_parse resp = Inr bs \<longrightarrow>
      map Inr bs = map (\<lambda>(i, parts). book_of (groundingChunks resp) i parts)
                     (dollar_pieces (text_of resp))) \<and>
   (news_item_of u ch i parts = Inr n \<longrightarrow>
      headline n = strip_leading_nonword (trim (parts ! 0)) \<and>
      date n = trim (parts ! 1) \<and> snippet n = trim (parts ! 2)) \<and>
   (book_of ch i parts = Inr b \<longrightarrow>
      book_title b = strip_leading_nonword (trim (parts ! 0)) \<and>
      author b = trim (parts ! 1) \<and> book_description b = trim (parts ! 2))"
proof (intro conjI impI)
  show "newsItems_of u resp =
     collect (map (\<lambda>(i, parts). news_item_of u (groundingChunks resp) i parts)
                (dollar_pieces (text_of resp)))"
    by (rule newsItems_of_eq)
  show "subjects_of resp = Inr (map subject_of (pipe_lines (text_of resp)))"
    by (rule subjects_of_eq)
  show "findBooks_parse resp =
     collect (map (\<lambda>(i, parts). book_of (groundingChunks resp) i parts)
                (dollar_pieces (text_of resp)))"
    by (rule findBooks_parse_eq)
next
  assume "newsItems_of u resp = Inr ns"
  then show "map Inr ns = map (\<lambda>(i, parts). news_item_of u (groundingChunks resp) i parts)
                     (dollar_pieces (text_of resp))"
    by (simp add: newsItems_of_eq collect_Inr_iff)
next
  assume "findBooks_parse resp = Inr bs"
  then show "map Inr bs = map (\<lambda>(i, parts). book_of (groundingChunks resp) i parts)
                     (dollar_pieces (text_of resp))"
    by (simp add: findBooks_parse_eq collect_Inr_iff)
next
  assume a: "news_item_of u ch i parts = Inr n"
  then show "headline n = strip_leading_nonword (trim (parts ! 0))"
    by (auto simp: news_item_of_def and_then_def split: sum.splits)
  from a show "date n = trim (parts ! 1)"
    by (auto simp: news_item_of_def and_then_def split: sum.splits)
  from a show "snippet n = trim (parts ! 2)"
    by (auto simp: news_item_of_def and_then_def split: sum.splits)
next
  assume a: "book_of ch i parts = Inr b"
  then show "book_title b = strip_leading_nonword (trim (parts ! 0))"
    by (auto simp: book_of_def and_then_def split: sum.splits)
  from a show "author b = trim (parts ! 1)"
    by (auto simp: book_of_def and_then_def split: sum.splits)
  from a show "book_description b = trim (parts ! 2)"
    by (auto simp: book_of_def and_then_def split: sum.splits)
qed

theorem records_from_pieces_with_enough_fields_witness:
  "findBooks_parse (plain_response (js ''X$$Y|||Things Fall Apart$$Chinua Achebe$$A novel.|||Z'')) =
     Inr [achebe] \<and>
   book_title achebe = strip_leading_nonword (trim (js ''Things Fall Apart''))"
proof -
  let ?r = "plain_response (js ''X$$Y|||Things Fall Apart$$Chinua Achebe$$A novel.|||Z'')"
  let ?parts = "[js ''Things Fall Apart'', js ''Chinua Achebe'', js ''A novel.'']"
  have p: "dollar_pieces (text_of ?r) = [(1, ?parts)]"
    by (simp add: evaluation)
  have b: "book_of (groundingChunks ?r) 1 ?parts = Inr achebe"
    by (simp add: evaluation achebe_def)
  note t = records_from_pieces_with_enough_fields
             [of "js ''U''" ?r "[]" "[achebe]" "[]" 1 ?parts
                 "\<lparr>headline = [], date = [], snippet = [], link = []\<rparr>" achebe]
  from t p b have 1: "findBooks_parse ?r = Inr [achebe]"
    by (simp add: and_then_def)
  from t b have 2: "book_title achebe = strip_leading_nonword (trim (?parts ! 0))"
    by (simp add: plain_response_def)
  from 1 2 show ?thesis by simp
qed

text \<open>
  Claim C5 as stated fails: a piece with three empty fields is emitted as a
  news item whose headline, date and snippet are empty, and the line \<^verbatim>\<open>|\<close> as
  a subject whose code and title are empty.
\<close>

theorem records_with_empty_fields:
  "newsItems_of (js ''U'') (plain_response (js ''$$$$'')) =
     Inr [\<lparr>headline = [], date = [], snippet = [],
           link = js ''https://www.google.com/search?q=U%20news''\<rparr>] \<and>
   subjects_of (plain_response (js ''|'')) =
     Inr [\<lparr>subject_code = [], subject_title = [],
           subject_description = Some (js ''Core course module.'')\<rparr>]"
  by (simp add: evaluation newsItems_of_eq subjects_of_eq)








text \<open>
  Claim C7, as amended. The first copy, news: when the embedded link is
  missing or shorter than 5 characters once trimmed, the link is the citation
  at the index the piece has among all pieces, when there is one, and
  otherwise a search for the university's name followed by \<open>news\<close> (not for
  the headline); a longer embedded link is kept. The first copy, books: no
  embedded link is read; the link is the citation at that index, when there
  is one, and otherwise a search for the trimmed title followed by \<open>book\<close>,
  which is never \<open>#\<close>. The second copy puts the placeholder \<open>#\<close> where the
  first one puts a search: on news without a citation, and on every book.
\<close>

theorem link_substitution:
  "(short_link parts \<and> has_citation ch i \<longrightarrow>
      (\<exists>uri. ch ! i = Some uri \<and> news_link u ch i parts = Inr uri \<and>
             news_link_demo ch i parts = uri)) \<and>
   (short_link parts \<and> \<not> has_citation ch i \<longrightarrow>
      news_link u ch i parts = search_url (u @ js '' news'') \<and>
      news_link_demo ch i parts = js ''#'') \<and>
   (\<not> short_link parts \<longrightarrow>
      news_link u ch i parts = Inr (trim (parts ! 3)) \<and>
      news_link_demo ch i parts = trim (parts ! 3)) \<and>
   (has_citation ch i \<longrightarrow>
      (\<exists>uri. ch ! i = Some uri \<and> citation_or_search ch i q = Inr uri)) \<and>
   (\<not> has_citation ch i \<longrightarrow>
      citation_or_search ch i q = search_url q \<and> citation_or_search ch i q \<noteq> Inr (js ''#'')) \<and>
   (news_item_of u ch i parts = Inr n \<longrightarrow> news_link u ch i parts = Inr (link n)) \<and>
   link (news_item_of_demo ch i parts) = news_link_demo ch i parts \<and>
   (book_of ch i parts = Inr b \<longrightarrow>
      (\<exists>l. citation_or_search ch i (trim (parts ! 0) @ js '' book'') = Inr l \<and>
           book_link b = Some l)) \<and>
   (short_link parts \<and> has_citation ch i \<longrightarrow>
      (\<exists>n'. news_item_of u ch i parts = Inr n' \<and> Some (link n') = ch ! i) \<and>
      Some (link (news_item_of_demo ch i parts)) = ch ! i) \<and>
   (\<not> short_link parts \<longrightarrow>
      (\<exists>n'. news_item_of u ch i parts = Inr n' \<and> link n' = trim (parts ! 3)) \<and>
      link (news_item_of_demo ch i parts) = trim (parts ! 3)) \<and>
   (has_citation ch i \<longrightarrow> (\<exists>b'. book_of ch i parts = Inr b' \<and> book_link b' = ch ! i)) \<and>
   (\<not> has_citation ch i \<and> book_of ch i parts = Inr b \<longrightarrow>
      (\<exists>l. search_url (trim (parts ! 0) @ js '' book'') = Inr l \<and> book_link b = Some l) \<and>
      book_link b \<noteq> Some (js ''#'')) \<and>
   book_link (book_of_demo parts) = Some (js ''#'') \<and>
   newsItems_of u resp =
     collect (map (\<lambda>(i, parts). news_item_of u (groundingChunks resp) i parts)
                (dollar_pieces (text_of resp))) \<and>
   findBooks_parse resp =
     collect (map (\<lambda>(i, parts). book_of (groundingChunks resp) i parts)
                (dollar_pieces (text_of resp))) \<and>
   generateUniversityNews_demo_parse resp =
     Inr (take 4 (map (\<lambda>(i, parts). news_item_of_demo (groundingChunks resp) i parts)
                    (dollar_pieces (text_of resp)))) \<and>
   findBooks_demo_parse resp =
     Inr (map (\<lambda>(i, parts). book_of_demo parts) (dollar_pieces (text_of resp)))"
proof (intro conjI impI)
  assume a: "short_link parts \<and> has_citation ch i"
  then obtain uri where u: "ch ! i = Some uri"
    "citation_or_search ch i (u @ js '' news'') = Inr uri"
    using citation_or_search_present by blast
  moreover have "news_link_demo ch i parts = uri"
    using a u(1) citation_or_present [of ch i "js ''#''"] by (simp add: news_link_demo_short)
  ultimately show "\<exists>uri. ch ! i = Some uri \<and> news_link u ch i parts = Inr uri \<and>
             news_link_demo ch i parts = uri"
    using a by (simp add: news_link_short)
next
  assume a: "short_link parts \<and> \<not> has_citation ch i"
  then show "news_link u ch i parts = search_url (u @ js '' news'')"
    by (simp add: news_link_short citation_or_search_absent)
  from a show "news_link_demo ch i parts = js ''#''"
    by (simp add: news_link_demo_short citation_or_absent)
next
  assume a: "\<not> short_link parts"
  then show "news_link u ch i parts = Inr (trim (parts ! 3))"
    by (rule news_link_long)
  from a show "news_link_demo ch i parts = trim (parts ! 3)"
    by (rule news_link_demo_long)
next
  assume "has_citation ch i"
  then show "\<exists>uri. ch ! i = Some uri \<and> citation_or_search ch i q = Inr uri"
    by (rule citation_or_search_present)
next
  assume a: "\<not> has_citation ch i"
  then show "citation_or_search ch i q = search_url q"
    by (rule citation_or_search_absent)
  from a show "citation_or_search ch i q \<noteq> Inr (js ''#'')"
    by (simp add: citation_or_search_absent search_url_not_placeholder)
next
  assume "news_item_of u ch i parts = Inr n"
  then show "news_link u ch i parts = Inr (link n)"
    by (auto simp: news_item_of_def and_then_def split: sum.splits)
next
  show "link (news_item_of_demo ch i parts) = news_link_demo ch i parts"
    by (simp add: news_item_of_demo_def)
next
  assume "book_of ch i parts = Inr b"
  then show "\<exists>l. citation_or_search ch i (trim (parts ! 0) @ js '' book'') = Inr l \<and>
           book_link b = Some l"
    by (auto simp: book_of_def and_then_def split: sum.splits)
next
  assume a: "short_link parts \<and> has_citation ch i"
  then obtain uri where u: "ch ! i = Some uri"
    "citation_or_search ch i (u @ js '' news'') = Inr uri"
    using citation_or_search_present by blast
  with a show "\<exists>n'. news_item_of u ch i parts = Inr n' \<and> Some (link n') = ch ! i"
    by (simp add: news_item_of_def news_link_short and_then_def)
  from a show "Some (link (news_item_of_demo ch i parts)) = ch ! i"
    by (simp add: news_item_of_demo_def news_link_demo_short citation_or_present [symmetric])
next
  assume a: "\<not> short_link parts"
  then show "\<exists>n'. news_item_of u ch i parts = Inr n' \<and> link n' = trim (parts ! 3)"
    by (simp add: news_item_of_def news_link_long and_then_def)
  from a show "link (news_item_of_demo ch i parts) = trim (parts ! 3)"
    by (simp add: news_item_of_demo_def news_link_demo_long)
next
  assume "has_citation ch i"
  then obtain uri where "ch ! i = Some uri"
    "citation_or_search ch i (trim (parts ! 0) @ js '' book'') = Inr uri"
    using citation_or_search_present by blast
  then show "\<exists>b'. book_of ch i parts = Inr b' \<and> book_link b' = ch ! i"
    by (simp add: book_of_def and_then_def)
next
  assume a: "\<not> has_citation ch i \<and> book_of ch i parts = Inr b"
  then show "\<exists>l. search_url (trim (parts ! 0) @ js '' book'') = Inr l \<and> book_link b = Some l"
    by (auto simp: book_of_def and_then_def citation_or_search_absent split: sum.splits)
  from a show "book_link b \<noteq> Some (js ''#'')"
    using search_url_not_placeholder [of "trim (parts ! 0) @ js '' book''"]
    by (auto simp: book_of_def and_then_def citation_or_search_absent split: sum.splits)
next
  show "book_link (book_of_demo parts) = Some (js ''#'')"
    by (simp add: book_of_demo_def)
  show "newsItems_of u resp =
     collect (map (\<lambda>(i, parts). news_item_of u (groundingChunks resp) i parts)
                (dollar_pieces (text_of resp)))"
    by (rule newsItems_of_eq)
  show "findBooks_parse resp =
     collect (map (\<lambda>(i, parts). book_of (groundingChunks resp) i parts)
                (dollar_pieces (text_of resp)))"
    by (rule findBooks_parse_eq)
  show "generateUniversityNews_demo_parse resp =
     Inr (take 4 (map (\<lambda>(i, parts). news_item_of_demo (groundingChunks resp) i parts)
                    (dollar_pieces (text_of resp))))"
    by (rule generateUniversityNews_demo_parse_eq)
  show "findBooks_demo_parse resp =
     Inr (map (\<lambda>(i, parts). book_of_demo parts) (dollar_pieces (text_of resp)))"
    by (rule findBooks_demo_parse_eq)
qed

text \<open>
  Claim C7 as stated fails: the second copy emits a book whose embedded link
  is \<open>#\<close> with the link \<open>#\<close>, and the first copy's search link of a news item
  is built from the university's name, not from the headline.
\<close>

theorem placeholder_and_university_links:
  "findBooks_demo_parse (plain_response (js ''Title$$Author$$Desc$$#'')) =
     Inr [\<lparr>book_title = js ''Title'', author = js ''Author'', book_description = js ''Desc'',
           book_link = Some (js ''#'')\<rparr>] \<and>
   newsItems_of (js ''UNILAG'') (plain_response (js ''Exams begin$$Today$$All levels'')) =
     Inr [\<lparr>headline = js ''Exams begin'', date = js ''Today'', snippet = js ''All levels'',
           link = js ''https://www.google.com/search?q=UNILAG%20news''\<rparr>]"
  by (simp add: evaluation newsItems_of_eq findBooks_demo_parse_eq)

theorem link_substitution_witness:
  "news_link (js ''UNILAG'') cited_chunks 1 short_news = Inr (js ''https://b.example/2'') \<and>
   news_link (js ''UNILAG'') cited_chunks 2 short_news =
     Inr (js ''https://www.google.com/search?q=UNILAG%20news'') \<and>
   news_link (js ''UNILAG'') cited_chunks 1 long_news = Inr (js ''https://unilag.edu.ng/news'') \<and>
   news_link_demo cited_chunks 2 short_news = js ''#'' \<and>
   citation_or_search cited_chunks 1 (js ''Title book'') = Inr (js ''https://b.example/2'') \<and>
   citation_or_search cited_chunks 2 (js ''Title book'') =
     Inr (js ''https://www.google.com/search?q=Title%20book'')"
proof -
  have s: "short_link short_news" "\<not> short_link long_news"
    by (simp_all add: evaluation short_news_def long_news_def)
  have c: "has_citation cited_chunks 1" "\<not> has_citation cited_chunks 2"
    by (simp_all add: evaluation cited_chunks_def)
  have v: "cited_chunks ! 1 = Some (js ''https://b.example/2'')"
    "search_url (js ''UNILAG'' @ js '' news'') = Inr (js ''https://www.google.com/search?q=UNILAG%20news'')"
    "trim (long_news ! 3) = js ''https://unilag.edu.ng/news''"
    "search_url (js ''Title book'') = Inr (js ''https://www.google.com/search?q=Title%20book'')"
    by (simp_all add: evaluation cited_chunks_def long_news_def)
  note t = link_substitution [where u = "js ''UNILAG''" and ch = cited_chunks and q = "js ''Title book''"
                 and resp = "plain_response []" and b = achebe
                 and n = "\<lparr>headline = [], date = [], snippet = [], link = []\<rparr>"]
  from t [of short_news 1] s c v
  have 1: "news_link (js ''UNILAG'') cited_chunks 1 short_news = Inr (js ''https://b.example/2'')"
    and 5: "citation_or_search cited_chunks 1 (js ''Title book'') = Inr (js ''https://b.example/2'')"
    by auto
  from t [of short_news 2] s c v
  have 2: "news_link (js ''UNILAG'') cited_chunks 2 short_news =
     Inr (js ''https://www.google.com/search?q=UNILAG%20news'')"
    and 4: "news_link_demo cited_chunks 2 short_news = js ''#''"
    and 6: "citation_or_search cited_chunks 2 (js ''Title book'') =
     Inr (js ''https://www.google.com/search?q=Title%20book'')"
    by auto
  from t [of long_news 1] s c v
  have 3: "news_link (js ''UNILAG'') cited_chunks 1 long_news = Inr (js ''https://unilag.edu.ng/news'')"
    by auto
  from 1 2 3 4 5 6 show ?thesis by simp
qed





text \<open>
  Claim C4, as amended. The fixed list is returned whole and never mixed with
  extracted entries, but not on a count below 5. First copy: the fixed list of
  eight names is the answer only to a call that raised; when the pieces
  between \<^verbatim>\<open>|||\<close> of a non-empty text give fewer than 5 entries, the accessor
  returns the entries found line by line in the same text, however few; with
  5 or more entries it returns those. Second copy, outside demo mode: the
  fixed list of ten names is the answer to a call that raised and to a
  non-empty text with no entry; one entry or more is returned as is. In both
  copies an absent or empty text gives the empty list.
\<close>

theorem programs_fallback_policy:
  "(gen s = (Inl e, s') \<longrightarrow>
      generateDegreePrograms gen s = (Inr fallbackPrograms, [Invoke], s') \<and>
      generateDegreePrograms_demo_fn gen s = (Inr mockPrograms, s')) \<and>
   (gen s = (Inr resp, s') \<longrightarrow>
      generateDegreePrograms gen s = (Inr (generateDegreePrograms_parse resp), [Invoke], s') \<and>
      generateDegreePrograms_demo_fn gen s = (Inr (generateDegreePrograms_demo_parse resp), s')) \<and>
   (text_of resp = [] \<longrightarrow>
      generateDegreePrograms_parse resp = [] \<and> generateDegreePrograms_demo_parse resp = []) \<and>
   (text_of resp \<noteq> [] \<and> length (programs_of_text (text_of resp)) < 5 \<longrightarrow>
      generateDegreePrograms_parse resp = program_lines_of_text (text_of resp)) \<and>
   (5 \<le> length (programs_of_text (text_of resp)) \<longrightarrow>
      generateDegreePrograms_parse resp = programs_of_text (text_of resp)) \<and>
   (text_of resp \<noteq> [] \<and> programs_of_text_demo (text_of resp) = [] \<longrightarrow>
      generateDegreePrograms_demo_parse resp = mockPrograms) \<and>
   (text_of resp \<noteq> [] \<and> programs_of_text_demo (text_of resp) \<noteq> [] \<longrightarrow>
      generateDegreePrograms_demo_parse resp = programs_of_text_demo (text_of resp))"
proof (intro conjI impI)
  assume "gen s = (Inl e, s')"
  then show "generateDegreePrograms gen s = (Inr fallbackPrograms, [Invoke], s')"
    by (simp add: generateDegreePrograms_run)
next
  assume "gen s = (Inl e, s')"
  then show "generateDegreePrograms_demo_fn gen s = (Inr mockPrograms, s')"
    by (simp add: generateDegreePrograms_demo_fn_def)
next
  assume "gen s = (Inr resp, s')"
  then show "generateDegreePrograms gen s = (Inr (generateDegreePrograms_parse resp), [Invoke], s')"
    by (simp add: generateDegreePrograms_run)
next
  assume "gen s = (Inr resp, s')"
  then show "generateDegreePrograms_demo_fn gen s = (Inr (generateDegreePrograms_demo_parse resp), s')"
    by (simp add: generateDegreePrograms_demo_fn_def)
next
  assume "text_of resp = []"
  then show "generateDegreePrograms_parse resp = []"
    by (simp add: generateDegreePrograms_parse_def text_of_def)
next
  assume "text_of resp = []"
  then show "generateDegreePrograms_demo_parse resp = []"
    by (simp add: generateDegreePrograms_demo_parse_def text_of_def)
next
  assume "text_of resp \<noteq> [] \<and> length (programs_of_text (text_of resp)) < 5"
  then show "generateDegreePrograms_parse resp = program_lines_of_text (text_of resp)"
    by (simp add: generateDegreePrograms_parse_def text_of_def Let_def)
next
  assume "5 \<le> length (programs_of_text (text_of resp))"
  moreover have "programs_of_text [] = []"
    by (simp add: programs_of_text_def split_str_empty trim_def js_def)
  ultimately have "text_of resp \<noteq> []" by auto
  with \<open>5 \<le> length (programs_of_text (text_of resp))\<close>
  show "generateDegreePrograms_parse resp = programs_of_text (text_of resp)"
    by (simp add: generateDegreePrograms_parse_def text_of_def Let_def)
next
  assume "text_of resp \<noteq> [] \<and> programs_of_text_demo (text_of resp) = []"
  then show "generateDegreePrograms_demo_parse resp = mockPrograms"
    by (simp add: generateDegreePrograms_demo_parse_def text_of_def Let_def)
next
  assume "text_of resp \<noteq> [] \<and> programs_of_text_demo (text_of resp) \<noteq> []"
  then show "generateDegreePrograms_demo_parse resp = programs_of_text_demo (text_of resp)"
    by (simp add: generateDegreePrograms_demo_parse_def text_of_def Let_def)
qed

text \<open>
  Claim C4 as stated fails: a text with three entries yields neither fallback
  list. The first copy returns the one line of the text, the second copy the
  three entries.
\<close>

theorem programs_below_five_not_fallback:
  "length (programs_of_text (js ''Law School|||Medicine|||Accounting'')) = 3 \<and>
   generateDegreePrograms_parse (plain_response (js ''Law School|||Medicine|||Accounting'')) =
     [js ''Law School|||Medicine|||Accounting''] \<and>
   generateDegreePrograms_parse (plain_response (js ''Law School|||Medicine|||Accounting'')) \<noteq>
     fallbackPrograms \<and>
   generateDegreePrograms_demo_parse (plain_response (js ''Law School|||Medicine|||Accounting'')) =
     map js [''Law School'', ''Medicine'', ''Accounting'']"
  by (simp add: evaluation generateDegreePrograms_parse_def generateDegreePrograms_demo_parse_def
        fallbackPrograms_def)

theorem programs_fallback_policy_witness:
  "generateDegreePrograms (failing server_error) 0 = (Inr fallbackPrograms, [Invoke], 1) \<and>
   generateDegreePrograms (answering (plain_response (js ''Law School|||Medicine|||Accounting''))) 0 =
     (Inr [js ''Law School|||Medicine|||Accounting''], [Invoke], 1) \<and>
   generateDegreePrograms_demo_fn (answering (plain_response (js ''Law School|||Medicine|||Accounting''))) 0 =
     (Inr (map js [''Law School'', ''Medicine'', ''Accounting'']), 1) \<and>
   generateDegreePrograms_demo_parse (plain_response (js ''abc'')) = mockPrograms"
proof -
  let ?t = "js ''Law School|||Medicine|||Accounting''"
  have a: "failing server_error 0 = (Inl server_error, 1)"
    by (simp add: failing_def)
  have b: "answering (plain_response ?t) 0 = (Inr (plain_response ?t), 1)"
    by (simp add: answering_def)
  have t: "text_of (plain_response ?t) = ?t" "text_of (plain_response (js ''abc'')) = js ''abc''"
    by (simp_all add: text_of_def plain_response_def or_else_def js_def)
  have c: "length (programs_of_text ?t) < 5" by (simp add: evaluation)
  have d: "program_lines_of_text ?t = [?t]" by (simp add: evaluation)
  have e: "programs_of_text_demo ?t = map js [''Law School'', ''Medicine'', ''Accounting'']"
    by (simp add: evaluation)
  have f: "programs_of_text_demo (js ''abc'') = []" by (simp add: evaluation)
  have n: "?t \<noteq> []" "js ''abc'' \<noteq> []" by (simp_all add: js_def)
  from programs_fallback_policy [of "failing server_error" 0 server_error 1] a
  have 1: "generateDegreePrograms (failing server_error) 0 = (Inr fallbackPrograms, [Invoke], 1)"
    by simp
  from programs_fallback_policy [of "answering (plain_response ?t)" 0 _ 1 "plain_response ?t"] b t c d e n
  have 2: "generateDegreePrograms (answering (plain_response ?t)) 0 = (Inr [?t], [Invoke], 1)"
    and 3: "generateDegreePrograms_demo_fn (answering (plain_response ?t)) 0 =
     (Inr (map js [''Law School'', ''Medicine'', ''Accounting'']), 1)"
    by simp_all
  from programs_fallback_policy [of "failing server_error" 0 server_error 1 "plain_response (js ''abc'')"] t f n
  have 4: "generateDegreePrograms_demo_parse (plain_response (js ''abc'')) = mockPrograms"
    by simp
  from 1 2 3 4 show ?thesis by simp
qed

lemma load_service_mock:
  "isMockMode (load_service apiKey new_client) \<longleftrightarrow>
     apiKey = None \<or> apiKey = Some [] \<or> apiKey = Some (js ''undefined'') \<or>
     (\<exists>k. apiKey = Some k \<and> length k < 5)"
  by (cases apiKey) (auto simp: load_service_def Let_def)

lemma load_service_no_client:
  "isMockMode (load_service apiKey new_client) \<Longrightarrow> ai (load_service apiKey new_client) = None"
  by (cases apiKey) (auto simp: load_service_def Let_def)

text \<open>
  Claim C9. When the service is loaded with a credential that is absent,
  empty, the token \<open>undefined\<close> or shorter than 5 characters (and only then),
  the flag is set and there is no client; the accessors read that flag, fixed
  when the service was loaded, and then return their canned data after the
  mock delay, with no call of an operation and the state of the world
  untouched.
\<close>

theorem mock_mode_returns_canned_data:
  "(isMockMode (load_service apiKey new_client) \<longleftrightarrow>
      apiKey = None \<or> apiKey = Some [] \<or> apiKey = Some (js ''undefined'') \<or>
      (\<exists>k. apiKey = Some k \<and> length k < 5)) \<and>
   (isMockMode (load_service apiKey new_client) \<longrightarrow>
      ai (load_service apiKey new_client) = None \<and>
      generateDegreePrograms_demo (load_service apiKey new_client) s =
        (Inr mockPrograms, [Sleep 1500], s) \<and>
      generateUniversityNews_demo (load_service apiKey new_client) u s =
        (Inr (mockNews u), [Sleep 1500], s) \<and>
      generateSemesterSubjects_demo (load_service apiKey new_client) s =
        (Inr getMockSubjects, [Sleep 1500], s) \<and>
      recommendBooks_demo (load_service apiKey new_client) books_of_json s =
        (Inr mockBooks, [Sleep 1500], s) \<and>
      findBooks_demo (load_service apiKey new_client) books_of_json s =
        (Inr mockBooks, [Sleep 1500], s))"
proof (intro conjI impI)
  show "isMockMode (load_service apiKey new_client) \<longleftrightarrow>
      apiKey = None \<or> apiKey = Some [] \<or> apiKey = Some (js ''undefined'') \<or>
      (\<exists>k. apiKey = Some k \<and> length k < 5)"
    by (rule load_service_mock)
next
  assume m: "isMockMode (load_service apiKey new_client)"
  then show n: "ai (load_service apiKey new_client) = None"
    by (rule load_service_no_client)
  show "generateDegreePrograms_demo (load_service apiKey new_client) s =
        (Inr mockPrograms, [Sleep 1500], s)"
    by (simp add: generateDegreePrograms_demo_def n mockDelay_def)
  show "generateUniversityNews_demo (load_service apiKey new_client) u s =
        (Inr (mockNews u), [Sleep 1500], s)"
    by (simp add: generateUniversityNews_demo_def n mockDelay_def)
  show "generateSemesterSubjects_demo (load_service apiKey new_client) s =
        (Inr getMockSubjects, [Sleep 1500], s)"
    by (simp add: generateSemesterSubjects_demo_def n mockDelay_def)
  show "recommendBooks_demo (load_service apiKey new_client) books_of_json s =
        (Inr mockBooks, [Sleep 1500], s)"
    by (simp add: recommendBooks_demo_def n mockDelay_def)
  show "findBooks_demo (load_service apiKey new_client) books_of_json s =
        (Inr mockBooks, [Sleep 1500], s)"
    by (simp add: findBooks_demo_def recommendBooks_demo_def n mockDelay_def)
qed

theorem mock_mode_returns_canned_data_witness:
  "isMockMode (load_service (Some (js ''abcd'')) (\<lambda>k. failing server_error)) \<and>
   generateDegreePrograms_demo (load_service (Some (js ''abcd'')) (\<lambda>k. failing server_error)) 0 =
     (Inr mockPrograms, [Sleep 1500], 0) \<and>
   findBooks_demo (load_service None (\<lambda>k. failing server_error)) (\<lambda>t. Inr None) 0 =
     (Inr mockBooks, [Sleep 1500], 0) \<and>
   \<not> isMockMode (load_service (Some (js ''abcde'')) (\<lambda>k. failing server_error))"
proof -
  note a = mock_mode_returns_canned_data [of "Some (js ''abcd'')" "\<lambda>k. failing server_error" 0 "js ''U''" "\<lambda>t. Inr None"]
  note b = mock_mode_returns_canned_data [of None "\<lambda>k. failing server_error" 0 "js ''U''" "\<lambda>t. Inr None"]
  note c = mock_mode_returns_canned_data [of "Some (js ''abcde'')" "\<lambda>k. failing server_error" 0 "js ''U''" "\<lambda>t. Inr None"]
  from a have 1: "isMockMode (load_service (Some (js ''abcd'')) (\<lambda>k. failing server_error))"
    by (simp add: js_def)
  with a have 2: "generateDegreePrograms_demo (load_service (Some (js ''abcd'')) (\<lambda>k. failing server_error)) 0 =
     (Inr mockPrograms, [Sleep 1500], 0)" by blast
  from b have 3: "findBooks_demo (load_service None (\<lambda>k. failing server_error)) (\<lambda>t. Inr None) 0 =
     (Inr mockBooks, [Sleep 1500], 0)" by simp
  from c have 4: "\<not> isMockMode (load_service (Some (js ''abcde'')) (\<lambda>k. failing server_error))"
    by (simp add: js_def)
  from 1 2 3 4 show ?thesis by simp
qed

end
